theory Spec2Isabelle
  imports Complex_Main
begin

section \<open>JavaScript values\<close>

text \<open>
  The engine reads optional attributes of plain objects.  An attribute that is absent
  (\<^verbatim>\<open>undefined\<close>) is \<open>None\<close>.  Numbers are modelled as reals: the engine only adds,
  subtracts, multiplies, divides and compares them.  The source's \<^verbatim>\<open>a || b\<close> takes
  \<open>b\<close> when \<open>a\<close> is falsy (absent, the empty string, the number 0, \<^verbatim>\<open>false\<close>);
  \<^verbatim>\<open>a ?? b\<close> takes \<open>b\<close> only when \<open>a\<close> is absent.
\<close>

definition truthy_str :: "string option \<Rightarrow> bool" where
  "truthy_str v = (case v of None \<Rightarrow> False | Some s \<Rightarrow> s \<noteq> [])"

definition truthy_num :: "real option \<Rightarrow> bool" where
  "truthy_num v = (case v of None \<Rightarrow> False | Some n \<Rightarrow> n \<noteq> 0)"

definition truthy_bool :: "bool option \<Rightarrow> bool" where
  "truthy_bool v = (case v of None \<Rightarrow> False | Some b \<Rightarrow> b)"

definition str_or :: "string option \<Rightarrow> string \<Rightarrow> string" where
  "str_or v d = (case v of None \<Rightarrow> d | Some s \<Rightarrow> if s = [] then d else s)"

definition num_or :: "real option \<Rightarrow> real \<Rightarrow> real" where
  "num_or v d = (case v of None \<Rightarrow> d | Some n \<Rightarrow> if n = 0 then d else n)"

definition num_nullish :: "real option \<Rightarrow> real \<Rightarrow> real" where
  "num_nullish v d = (case v of None \<Rightarrow> d | Some n \<Rightarrow> n)"

definition bool_nullish :: "bool option \<Rightarrow> bool \<Rightarrow> bool" where
  "bool_nullish v d = (case v of None \<Rightarrow> d | Some b \<Rightarrow> b)"

text \<open>\<^verbatim>\<open>if (el.a) opts.a = el.a\<close>: the option is set only from a truthy attribute.\<close>

definition keep_str :: "string option \<Rightarrow> string option" where
  "keep_str v = (if truthy_str v then v else None)"

definition keep_num :: "real option \<Rightarrow> real option" where
  "keep_num v = (if truthy_num v then v else None)"

text \<open>Reading an array at an index: \<^verbatim>\<open>undefined\<close> out of range.\<close>

definition nth_opt :: "'a list \<Rightarrow> nat \<Rightarrow> 'a option" where
  "nth_opt xs i = (if i < length xs then Some (xs ! i) else None)"

text \<open>
  Arithmetic in which an operand may be \<^verbatim>\<open>undefined\<close> or \<^verbatim>\<open>NaN\<close> (both \<open>None\<close>):
  the result is then \<^verbatim>\<open>NaN\<close>.
\<close>

definition js_add :: "real option \<Rightarrow> real option \<Rightarrow> real option" where
  "js_add a b = (case (a, b) of (Some u, Some v) \<Rightarrow> Some (u + v) | _ \<Rightarrow> None)"

definition js_sub :: "real option \<Rightarrow> real option \<Rightarrow> real option" where
  "js_sub a b = (case (a, b) of (Some u, Some v) \<Rightarrow> Some (u - v) | _ \<Rightarrow> None)"

text \<open>The decimal digits of a natural number, as a template literal prints it.\<close>

definition digit_char :: "nat \<Rightarrow> char" where
  "digit_char n = ''0123456789'' ! n"

fun show_nat :: "nat \<Rightarrow> string" where
  "show_nat n = (if n < 10 then [digit_char n]
                 else show_nat (n div 10) @ [digit_char (n mod 10)])"

declare show_nat.simps [simp del]

section \<open>The drawing library at its boundary\<close>

text \<open>
  Modelled from the spec: the drawing library (pdfkit's \<^verbatim>\<open>PDFDocument\<close>) is an
  external dependency and is not part of the source.  The specification gives its
  boundary (place text at a position with options and consume a box, fill or stroke a
  rectangle, stroke a line, place an image, attach a clickable region, start a new
  page, count the buffered pages, switch to a page).  The document below keeps what
  the engine reads back from the library (the cursor \<^verbatim>\<open>doc.x\<close>, \<^verbatim>\<open>doc.y\<close>, the page
  geometry, the number of buffered pages) and the ordered list of the drawing calls the
  engine made.  What the library computes from fonts and files (the number of lines a
  text is broken into, the width of a string, the height of a line, the size of an
  image, the values of \<^verbatim>\<open>Math.random\<close>) is a parameter.

  Beyond that boundary, the library flows text, as pdfkit's line wrapper is documented
  to do: a text that is wrapped (its width is a positive number) and that starts below the bottom of the content area, or whose first line would end below
  it, is continued on a new page before anything is written; after every line but the
  last, when the next line would end below the bottom of the content area, the text is
  continued on a new page.  A new page is appended after the last buffered page and
  becomes the current one.  A drawing call is recorded with the arguments the engine
  gave and with the index of the page on which the library starts to draw it.  The
  library raises on a number that is \<^verbatim>\<open>undefined\<close> or \<^verbatim>\<open>NaN\<close> where it writes a
  coordinate.  The fonts a specification names are taken to be fonts the library has.
\<close>

record text_opts =
  o_align :: "string option"
  o_width :: "real option"
  o_link :: "string option"
  o_underline :: bool
  o_strike :: bool
  o_oblique :: bool
  o_indent :: "real option"
  o_lineGap :: "real option"
  o_continued :: bool
  o_widthNaN :: bool

definition no_opts :: text_opts where
  "no_opts = \<lparr> o_align = None, o_width = None, o_link = None, o_underline = False,
      o_strike = False, o_oblique = False, o_indent = None, o_lineGap = None,
      o_continued = False, o_widthNaN = False \<rparr>"

record image_opts =
  io_width :: "real option"
  io_height :: "real option"
  io_fit :: "(real \<times> real) option"
  io_align :: "string option"
  io_valign :: "string option"

text \<open>
  In the options of a text call \<open>o_widthNaN\<close> says that the \<^verbatim>\<open>width\<close> the engine gave is
  \<^verbatim>\<open>NaN\<close>.  A text call carries the string, the position asked for, the options, and
  the font, the size and the fill colour current at the call.  \<open>PNaN\<close> records a text
  call with an empty string at a position that is \<^verbatim>\<open>NaN\<close>: nothing is written.
\<close>

datatype prim =
    PText string real real text_opts string real string
  | PFillRect real real real real string
  | PStrokeRect real real real real string real
  | PLine real real real real string real
  | PLink real real real real string
  | PImage string real real real real
  | POpacity real
  | PSave
  | PRestore
  | PNaN string

record doc =
  doc_x :: real
  doc_y :: real
  page_width :: real
  page_height :: real
  margin_top :: real
  margin_bottom :: real
  margin_left :: real
  margin_right :: real
  page_count :: nat
  cur_page :: nat
  cur_font :: string
  cur_fontSize :: real
  cur_fillColor :: string
  cur_strokeColor :: string
  cur_lineWidth :: real
  rng_calls :: nat
  prims :: "(nat \<times> prim) list"

record lib =
  l_text_lines :: "doc \<Rightarrow> string \<Rightarrow> text_opts \<Rightarrow> nat"
  l_string_width :: "doc \<Rightarrow> string \<Rightarrow> real"
  l_line_height :: "doc \<Rightarrow> real"
  l_image_dims :: "string \<Rightarrow> image_opts \<Rightarrow> (real \<times> real) option"
  l_random :: "nat \<Rightarrow> real"
  l_page_dims :: "string \<Rightarrow> real \<times> real"

datatype error = ImageError | UnsupportedNumber

definition emit :: "prim \<Rightarrow> doc \<Rightarrow> doc" where
  "emit p d = d\<lparr> prims := prims d @ [(cur_page d, p)] \<rparr>"

text \<open>\<^verbatim>\<open>doc.font(f).fontSize(s).fillColor(c)\<close>\<close>

definition setFont :: "string \<Rightarrow> real \<Rightarrow> string \<Rightarrow> doc \<Rightarrow> doc" where
  "setFont f s c d = d\<lparr> cur_font := f, cur_fontSize := s, cur_fillColor := c \<rparr>"

definition fillColor :: "string \<Rightarrow> doc \<Rightarrow> doc" where
  "fillColor c d = d\<lparr> cur_fillColor := c \<rparr>"

text \<open>\<^verbatim>\<open>doc.strokeColor(c).lineWidth(w)\<close>\<close>

definition setStroke :: "string \<Rightarrow> real \<Rightarrow> doc \<Rightarrow> doc" where
  "setStroke c w d = d\<lparr> cur_strokeColor := c, cur_lineWidth := w \<rparr>"

text \<open>
  \<^verbatim>\<open>doc.addPage()\<close>: the new page is appended to the buffered pages and becomes the
  current one; the cursor goes to its top left content corner.
\<close>

definition addPage :: "doc \<Rightarrow> doc" where
  "addPage d = d\<lparr> page_count := page_count d + 1, cur_page := page_count d,
                  doc_x := margin_left d, doc_y := margin_top d \<rparr>"

definition switchToPage :: "nat \<Rightarrow> doc \<Rightarrow> doc" where
  "switchToPage i d = d\<lparr> cur_page := i \<rparr>"

text \<open>The bottom of the content area, \<^verbatim>\<open>page.maxY()\<close>.\<close>

definition pageMaxY :: "doc \<Rightarrow> real" where
  "pageMaxY d = page_height d - margin_bottom d"

text \<open>
  A text that passes the bottom of the content area is continued on a new page, at the
  top margin and at the horizontal position at which the text started.
\<close>

definition continueOnNewPage :: "real \<Rightarrow> doc \<Rightarrow> doc" where
  "continueOnNewPage startX d = (addPage d)\<lparr> doc_x := startX \<rparr>"

text \<open>
  The library wraps a text when its width is truthy: the \<^verbatim>\<open>width\<close> option, or the
  room from the cursor to the right margin when none is given, cut off at 0.
\<close>

definition wrapsText :: "text_opts \<Rightarrow> doc \<Rightarrow> bool" where
  "wrapsText opts d =
     (\<not> o_widthNaN opts
      \<and> 0 < (case o_width opts of
                None \<Rightarrow> page_width d - doc_x d - margin_right d
              | Some w \<Rightarrow> w))"

text \<open>The document when the first line of a text is about to be written.\<close>

definition textStart :: "lib \<Rightarrow> text_opts \<Rightarrow> doc \<Rightarrow> doc" where
  "textStart L opts d =
     (if wrapsText opts d \<and> (doc_y d > pageMaxY d \<or> doc_y d + l_line_height L d > pageMaxY d)
      then continueOnNewPage (doc_x d) d
      else d)"

definition textPage :: "lib \<Rightarrow> text_opts \<Rightarrow> doc \<Rightarrow> nat" where
  "textPage L opts d = cur_page (textStart L opts d)"

text \<open>
  The lines of a wrapped text: every line moves the cursor down by the line height and
  the line gap; after a line that is not the last, the text is continued on a new page
  when the next line would end below the content area.  With \<^verbatim>\<open>continued\<close> the cursor
  stays at the height of the last line.
\<close>

fun wrapLines :: "lib \<Rightarrow> real \<Rightarrow> real \<Rightarrow> bool \<Rightarrow> nat \<Rightarrow> doc \<Rightarrow> doc" where
  "wrapLines L startX gap cont 0 d = d"
| "wrapLines L startX gap cont (Suc 0) d =
     (if cont then d else d\<lparr> doc_y := doc_y d + l_line_height L d + gap \<rparr>)"
| "wrapLines L startX gap cont (Suc (Suc n)) d =
     (let d1 = d\<lparr> doc_y := doc_y d + l_line_height L d + gap \<rparr>;
          d2 = (if doc_y d1 + l_line_height L d1 > pageMaxY d1
                then continueOnNewPage startX d1 else d1)
      in wrapLines L startX gap cont (Suc n) d2)"

text \<open>
  \<^verbatim>\<open>doc.text(s, opts)\<close>: the text is written from the cursor.  A text that is not
  wrapped is written on one line, and the cursor moves right by its width.
\<close>

definition textFlow :: "lib \<Rightarrow> string \<Rightarrow> text_opts \<Rightarrow> doc \<Rightarrow> doc" where
  "textFlow L s opts d =
     (let d0 = textStart L opts d;
          d1 = d0\<lparr> prims := prims d0 @
                  [(cur_page d0,
                    PText s (doc_x d) (doc_y d) opts (cur_font d) (cur_fontSize d)
                      (cur_fillColor d))] \<rparr>
      in if wrapsText opts d
         then wrapLines L (doc_x d) (num_or (o_lineGap opts) 0) (o_continued opts)
                (l_text_lines L d s opts) d1
         else d1\<lparr> doc_x := doc_x d + l_string_width L d s \<rparr>)"

text \<open>\<^verbatim>\<open>doc.text(s, x, y, opts)\<close>: the cursor is first moved to \<open>(x, y)\<close>.\<close>

definition textAt :: "lib \<Rightarrow> string \<Rightarrow> real \<Rightarrow> real \<Rightarrow> text_opts \<Rightarrow> doc \<Rightarrow> doc" where
  "textAt L s tx ty opts d = textFlow L s opts (d\<lparr> doc_x := tx, doc_y := ty \<rparr>)"

text \<open>\<^verbatim>\<open>doc.moveDown(n)\<close>: down by \<open>n\<close> lines of the current font.\<close>

definition moveDown :: "lib \<Rightarrow> real \<Rightarrow> doc \<Rightarrow> doc" where
  "moveDown L n d = d\<lparr> doc_y := doc_y d + l_line_height L d * n \<rparr>"

text \<open>\<^verbatim>\<open>doc.rect(x, y, w, h).fill(c)\<close>; \<^verbatim>\<open>fill\<close> sets the fill colour it is given.\<close>

definition fillRect :: "real \<Rightarrow> real \<Rightarrow> real \<Rightarrow> real \<Rightarrow> string \<Rightarrow> doc \<Rightarrow> doc" where
  "fillRect rx ry rw rh c d = emit (PFillRect rx ry rw rh c) (fillColor c d)"

definition strokeRect :: "real \<Rightarrow> real \<Rightarrow> real \<Rightarrow> real \<Rightarrow> doc \<Rightarrow> doc" where
  "strokeRect rx ry rw rh d =
     emit (PStrokeRect rx ry rw rh (cur_strokeColor d) (cur_lineWidth d)) d"

text \<open>\<^verbatim>\<open>doc.moveTo(x1, y1).lineTo(x2, y2).stroke()\<close>\<close>

definition strokeLine :: "real \<Rightarrow> real \<Rightarrow> real \<Rightarrow> real \<Rightarrow> doc \<Rightarrow> doc" where
  "strokeLine x1 y1 x2 y2 d =
     emit (PLine x1 y1 x2 y2 (cur_strokeColor d) (cur_lineWidth d)) d"

text \<open>\<^verbatim>\<open>doc.link(x, y, w, h, url)\<close>: a clickable region of the annotation layer.\<close>

definition link :: "real \<Rightarrow> real \<Rightarrow> real \<Rightarrow> real \<Rightarrow> string \<Rightarrow> doc \<Rightarrow> doc" where
  "link lx ly lw lh u d = emit (PLink lx ly lw lh u) d"

text \<open>
  \<^verbatim>\<open>doc.image(src, x, y, opts)\<close>: an unreadable source raises.  The image is placed at
  the given position, or at the cursor; placed at the cursor's height, it moves the
  cursor down by its height.
\<close>

definition imageAt :: "lib \<Rightarrow> string option \<Rightarrow> real option \<Rightarrow> real option \<Rightarrow> image_opts \<Rightarrow> doc
    \<Rightarrow> error + doc" where
  "imageAt L src ix iy opts d =
     (case src of None \<Rightarrow> Inl ImageError
      | Some s \<Rightarrow>
         (case l_image_dims L s opts of None \<Rightarrow> Inl ImageError
          | Some (w, h) \<Rightarrow>
              (let px = num_nullish ix (doc_x d); py = num_nullish iy (doc_y d);
                   d1 = emit (PImage s px py w h) d
               in Inr (if doc_y d = py then d1\<lparr> doc_y := doc_y d + h \<rparr> else d1))))"

text \<open>\<^verbatim>\<open>page.width - page.margins.left - page.margins.right\<close>\<close>

definition contentWidth :: "doc \<Rightarrow> real" where
  "contentWidth d = page_width d - margin_left d - margin_right d"

section \<open>The document specification\<close>

text \<open>
  A list item is a string or an object \<^verbatim>\<open>{ text, link }\<close>.  A table cell is
  \<^verbatim>\<open>undefined\<close>, \<^verbatim>\<open>null\<close>, a string, or an object \<^verbatim>\<open>{ text, link, color }\<close>.  A table
  row is an array of cells, or an object whose values are the cells.
\<close>

datatype item = IStr string | IObj (i_text: "string option") (i_link: "string option")

datatype cell =
    CUndefined
  | CNull
  | CStr string
  | CObj (c_text: "string option") (c_link: "string option") (c_color: "string option")

datatype row = RowArray "cell list" | RowObject "(string \<times> cell) list"

text \<open>
  The attributes the renderers read from an element, all optional.  The nested element
  lists of a \<^verbatim>\<open>columns\<close> element are kept apart, in the element itself.
\<close>

record attrs =
  el_value :: "string option"
  el_url :: "string option"
  el_link :: "string option"
  el_stealth :: "bool option"
  el_font :: "string option"
  el_fontSize :: "real option"
  el_color :: "string option"
  el_align :: "string option"
  el_width :: "real option"
  el_height :: "real option"
  el_x :: "real option"
  el_y :: "real option"
  el_underline :: "bool option"
  el_strike :: "bool option"
  el_oblique :: "bool option"
  el_indent :: "real option"
  el_lineGap :: "real option"
  el_continued :: "bool option"
  el_moveDown :: "real option"
  el_level :: "real option"
  el_items :: "item list option"
  el_ordered :: "bool option"
  el_headers :: "string list option"
  el_rows :: "row list option"
  el_columnWidths :: "real list option"
  el_headerFont :: "string option"
  el_bodyFont :: "string option"
  el_headerBackground :: "string option"
  el_headerColor :: "string option"
  el_alternateRowBackground :: "string option"
  el_cellPadding :: "real option"
  el_rowHeight :: "real option"
  el_gridLines :: "bool option"
  el_gridColor :: "string option"
  el_src :: "string option"
  el_fit :: "(real \<times> real) option"
  el_valign :: "string option"
  el_thickness :: "real option"
  el_spacing :: "real option"
  el_lines :: "real option"
  el_gap :: "real option"
  el_fill :: "string option"
  el_stroke :: "string option"
  el_lineWidth :: "real option"
  el_opacity :: "real option"
  el_label :: "string option"
  el_labelColor :: "string option"
  el_labelSize :: "real option"
  el_lineColor :: "string option"

definition no_attrs :: attrs where
  "no_attrs = \<lparr> el_value = None, el_url = None, el_link = None, el_stealth = None,
     el_font = None, el_fontSize = None, el_color = None, el_align = None,
     el_width = None, el_height = None, el_x = None, el_y = None, el_underline = None,
     el_strike = None, el_oblique = None, el_indent = None, el_lineGap = None,
     el_continued = None, el_moveDown = None, el_level = None, el_items = None,
     el_ordered = None, el_headers = None, el_rows = None, el_columnWidths = None,
     el_headerFont = None, el_bodyFont = None, el_headerBackground = None,
     el_headerColor = None, el_alternateRowBackground = None, el_cellPadding = None,
     el_rowHeight = None, el_gridLines = None, el_gridColor = None, el_src = None,
     el_fit = None, el_valign = None, el_thickness = None, el_spacing = None,
     el_lines = None, el_gap = None, el_fill = None, el_stroke = None,
     el_lineWidth = None, el_opacity = None, el_label = None, el_labelColor = None,
     el_labelSize = None, el_lineColor = None \<rparr>"

text \<open>
  An element has its \<^verbatim>\<open>type\<close> string, its attributes and its \<^verbatim>\<open>columns\<close> (absent:
  the empty list, as \<^verbatim>\<open>el.columns || []\<close> reads it).  A column has \<^verbatim>\<open>elements\<close> or
  \<^verbatim>\<open>content\<close>.
\<close>

datatype element = Element (el_type: string) (el_attrs: attrs) (el_columns: "column list")
  and column = Column (col_elements: "element list option") (col_content: "element list option")

record pn_opts =
  pn_align :: "string option"
  pn_fontSize :: "real option"
  pn_prefix :: "string option"
  pn_color :: "string option"

record margins =
  m_top :: real
  m_bottom :: real
  m_left :: real
  m_right :: real

record spec =
  sp_size :: "string option"
  sp_margins :: "margins option"
  sp_elements :: "element list option"
  sp_content :: "element list option"
  sp_pageNumbers :: "pn_opts option"

record engine =
  defaultFontSize :: real
  defaultFont :: string
  e_margins :: margins
  e_size :: string

record engine_options =
  eo_defaultFontSize :: "real option"
  eo_defaultFont :: "string option"
  eo_margins :: "margins option"
  eo_size :: "string option"

text \<open>The constructor of \<^verbatim>\<open>PDFEngine\<close>.\<close>

definition newEngine :: "engine_options \<Rightarrow> engine" where
  "newEngine options =
     \<lparr> defaultFontSize = num_or (eo_defaultFontSize options) 12,
       defaultFont = str_or (eo_defaultFont options) ''Helvetica'',
       e_margins = (case eo_margins options of
                      None \<Rightarrow> \<lparr> m_top = 50, m_bottom = 50, m_left = 50, m_right = 50 \<rparr>
                    | Some m \<Rightarrow> m),
       e_size = str_or (eo_size options) ''A4'' \<rparr>"

text \<open>
  \<^verbatim>\<open>_createDocument\<close>: one first page of the requested size and margins, the cursor at its
  top left content corner, nothing drawn.  The library's initial font is Helvetica at 12
  points in black, with a black stroke of width 1.
\<close>

definition createDocument :: "lib \<Rightarrow> engine \<Rightarrow> spec \<Rightarrow> doc" where
  "createDocument L E sp =
     (let sz = l_page_dims L (str_or (sp_size sp) (e_size E));
          m = (case sp_margins sp of None \<Rightarrow> e_margins E | Some m' \<Rightarrow> m')
      in \<lparr> doc_x = m_left m, doc_y = m_top m,
           page_width = fst sz, page_height = snd sz,
           margin_top = m_top m, margin_bottom = m_bottom m,
           margin_left = m_left m, margin_right = m_right m,
           page_count = 1, cur_page = 0,
           cur_font = ''Helvetica'', cur_fontSize = 12, cur_fillColor = ''black'',
           cur_strokeColor = ''black'', cur_lineWidth = 1,
           rng_calls = 0, prims = [] \<rparr>)"

section \<open>Element renderers\<close>

definition save :: "doc \<Rightarrow> doc" where
  "save d = emit PSave d"

definition restore :: "doc \<Rightarrow> doc" where
  "restore d = emit PRestore d"

text \<open>The library writes an absent text or URL argument as the empty string.\<close>

definition text_arg :: "string option \<Rightarrow> string" where
  "text_arg v = (case v of None \<Rightarrow> [] | Some s \<Rightarrow> s)"

text \<open>\<^verbatim>\<open>a || b\<close> where \<open>b\<close> may itself be absent.\<close>

definition str_or_opt :: "string option \<Rightarrow> string option \<Rightarrow> string option" where
  "str_or_opt v w = (if truthy_str v then v else w)"

text \<open>\<^verbatim>\<open>if (el.moveDown) doc.moveDown(el.moveDown)\<close>\<close>

definition moveDownIf :: "lib \<Rightarrow> real option \<Rightarrow> doc \<Rightarrow> doc" where
  "moveDownIf L v d = (case v of None \<Rightarrow> d | Some n \<Rightarrow> if n = 0 then d else moveDown L n d)"

definition applyFont :: "engine \<Rightarrow> attrs \<Rightarrow> doc \<Rightarrow> doc" where
  "applyFont E a d =
     (let font = str_or (el_font a) (defaultFont E);
          size = num_or (el_fontSize a) (defaultFontSize E);
          color = str_or (el_color a) ''#000000''
      in setFont font size color d)"

definition textOptions :: "attrs \<Rightarrow> text_opts" where
  "textOptions a =
     \<lparr> o_align = keep_str (el_align a), o_width = keep_num (el_width a),
       o_link = keep_str (el_link a), o_underline = truthy_bool (el_underline a),
       o_strike = truthy_bool (el_strike a), o_oblique = truthy_bool (el_oblique a),
       o_indent = keep_num (el_indent a), o_lineGap = keep_num (el_lineGap a),
       o_continued = truthy_bool (el_continued a), o_widthNaN = False \<rparr>"

definition renderText :: "lib \<Rightarrow> engine \<Rightarrow> attrs \<Rightarrow> doc \<Rightarrow> doc" where
  "renderText L E a d =
     (let d1 = applyFont E a d;
          opts = textOptions a;
          d2 = textFlow L (str_or (el_value a) []) opts d1
      in moveDownIf L (el_moveDown a) d2)"

definition sizeMap :: "real \<Rightarrow> real option" where
  "sizeMap level =
     (if level = 1 then Some 26 else if level = 2 then Some 22
      else if level = 3 then Some 18 else if level = 4 then Some 16
      else if level = 5 then Some 14 else if level = 6 then Some 12 else None)"

definition renderHeading :: "lib \<Rightarrow> engine \<Rightarrow> attrs \<Rightarrow> doc \<Rightarrow> doc" where
  "renderHeading L E a d =
     (let level = num_or (el_level a) 1;
          fontSize = num_or (el_fontSize a) (num_or (sizeMap level) 18);
          d1 = applyFont E (a\<lparr> el_fontSize := Some fontSize,
                  el_font := Some (str_or (el_font a) ''Helvetica-Bold'') \<rparr>) d;
          opts = textOptions a;
          d2 = textFlow L (str_or (el_value a) []) opts d1
      in moveDown L (num_nullish (el_moveDown a) 0.5) d2)"

text \<open>The options of the text call of a stealth link: built without the \<^verbatim>\<open>link\<close> property.\<close>

definition stealthOpts :: "attrs \<Rightarrow> text_opts" where
  "stealthOpts a =
     no_opts\<lparr> o_align := keep_str (el_align a), o_width := keep_num (el_width a),
              o_underline := truthy_bool (el_underline a) \<rparr>"

definition renderStealthLink :: "lib \<Rightarrow> engine \<Rightarrow> attrs \<Rightarrow> doc \<Rightarrow> doc" where
  "renderStealthLink L E a d =
     (let fontSize = num_or (el_fontSize a) (defaultFontSize E);
          color = str_or (el_color a) ''#000000'';
          font = str_or (el_font a) (defaultFont E);
          d1 = setFont font fontSize color d;
          startX = doc_x d1;
          startY = doc_y d1;
          opts = stealthOpts a;
          d2 = textFlow L (str_or (el_value a) []) opts d1;
          d3 = (if truthy_str (el_url a) then
                  (let endY = doc_y d2;
                       textHeight = endY - startY;
                       textWidth = num_or (el_width a) (contentWidth d2)
                   in link startX startY textWidth textHeight (text_arg (el_url a)) d2)
                else d2)
      in moveDownIf L (el_moveDown a) d3)"

definition renderLink :: "lib \<Rightarrow> engine \<Rightarrow> attrs \<Rightarrow> doc \<Rightarrow> doc" where
  "renderLink L E a d =
     (if truthy_bool (el_stealth a) then
        renderStealthLink L E
          (a\<lparr> el_color := Some (str_or (el_color a) ''#000000''),
              el_underline := Some (bool_nullish (el_underline a) False) \<rparr>) d
      else
        (let fontSize = num_or (el_fontSize a) (defaultFontSize E);
             color = str_or (el_color a) ''#1a0dab'';
             d1 = setFont (str_or (el_font a) (defaultFont E)) fontSize color d;
             opts = (textOptions a)\<lparr> o_link := el_url a, o_underline := True \<rparr>;
             d2 = textFlow L (text_arg (str_or_opt (el_value a) (el_url a))) opts d1;
             d3 = fillColor ''#000000'' d2
         in moveDownIf L (el_moveDown a) d3))"

text \<open>The bullet glyph U+2022 (three bytes in UTF-8) and a space.\<close>

definition bullet_glyph :: string where
  "bullet_glyph = [CHR 0xE2, CHR 0x80, CHR 0xA2, CHR 0x20]"

fun renderItems :: "lib \<Rightarrow> attrs \<Rightarrow> bool \<Rightarrow> real \<Rightarrow> nat \<Rightarrow> item list \<Rightarrow> doc \<Rightarrow> doc" where
  "renderItems L a ordered indent i [] d = d"
| "renderItems L a ordered indent i (it # its) d =
     (let bullet = (if ordered then show_nat (i + 1) @ ''. '' else bullet_glyph);
          opts = (textOptions a)\<lparr> o_indent := Some indent \<rparr>;
          d1 = (case it of
                  IStr s \<Rightarrow> textFlow L (bullet @ s) opts d
                | IObj t l \<Rightarrow>
                    textFlow L (bullet @ str_or t [])
                      (opts\<lparr> o_link := l, o_underline := truthy_str l \<rparr>) d)
      in renderItems L a ordered indent (Suc i) its d1)"

definition renderList :: "lib \<Rightarrow> engine \<Rightarrow> attrs \<Rightarrow> doc \<Rightarrow> doc" where
  "renderList L E a d =
     (let d1 = applyFont E a d;
          items = (case el_items a of None \<Rightarrow> [] | Some its \<Rightarrow> its);
          ordered = truthy_bool (el_ordered a);
          indent = num_or (el_indent a) 15;
          d2 = renderItems L a ordered indent 0 items d1
      in moveDown L (num_nullish (el_moveDown a) 0.5) d2)"

subsection \<open>Tables\<close>

definition autoColumnWidths :: "doc \<Rightarrow> nat \<Rightarrow> real list" where
  "autoColumnWidths d count =
     (if count = 0 then []
      else (let totalWidth = page_width d - margin_left d - margin_right d;
                w = totalWidth / real count
            in replicate count w))"

text \<open>The constants \<^verbatim>\<open>_renderTable\<close> computes before it draws.\<close>

record table_ctx =
  t_colWidths :: "real list"
  t_startX :: real
  t_headerFont :: string
  t_bodyFont :: string
  t_fontSize :: real
  t_headerBg :: string
  t_headerColor :: string
  t_rowAltBg :: string
  t_cellPadding :: real
  t_rowHeight :: real

definition tableHeaders :: "attrs \<Rightarrow> string list" where
  "tableHeaders a = (case el_headers a of None \<Rightarrow> [] | Some hs \<Rightarrow> hs)"

definition tableRows :: "attrs \<Rightarrow> row list" where
  "tableRows a = (case el_rows a of None \<Rightarrow> [] | Some rs \<Rightarrow> rs)"

definition tableColWidths :: "attrs \<Rightarrow> doc \<Rightarrow> real list" where
  "tableColWidths a d =
     (case el_columnWidths a of
        None \<Rightarrow> autoColumnWidths d (length (tableHeaders a))
      | Some ws \<Rightarrow> ws)"

definition tableCtx :: "engine \<Rightarrow> attrs \<Rightarrow> doc \<Rightarrow> table_ctx" where
  "tableCtx E a d =
     (let fontSize = num_or (el_fontSize a) 10;
          cellPadding = num_or (el_cellPadding a) 5
      in \<lparr> t_colWidths = tableColWidths a d,
           t_startX = num_or (el_x a) (doc_x d),
           t_headerFont = str_or (el_headerFont a) ''Helvetica-Bold'',
           t_bodyFont = str_or (el_bodyFont a) (defaultFont E),
           t_fontSize = fontSize,
           t_headerBg = str_or (el_headerBackground a) ''#4472C4'',
           t_headerColor = str_or (el_headerColor a) ''#FFFFFF'',
           t_rowAltBg = str_or (el_alternateRowBackground a) ''#F2F2F2'',
           t_cellPadding = cellPadding,
           t_rowHeight = num_or (el_rowHeight a) (fontSize + cellPadding * 2 + 4) \<rparr>)"

text \<open>
  The header labels.  \<^verbatim>\<open>colWidths[i]\<close> is read as it is: beyond an explicit width
  list it is \<^verbatim>\<open>undefined\<close>, the width of the label is \<^verbatim>\<open>NaN\<close>, and so is the \<open>x\<close> of
  every later label.  The library takes a \<^verbatim>\<open>NaN\<close> width as no wrapping, and it raises
  when it writes a label at a \<^verbatim>\<open>NaN\<close> position; an empty label writes nothing (it
  leaves the horizontal cursor \<^verbatim>\<open>NaN\<close>, which the table renderer sets again before it is
  read).  The position is \<^verbatim>\<open>NaN\<close> only after a label beyond the width list, where the
  width is \<^verbatim>\<open>NaN\<close> as well.
\<close>

fun headerCells ::
    "lib \<Rightarrow> table_ctx \<Rightarrow> real \<Rightarrow> nat \<Rightarrow> string list \<Rightarrow> real option \<Rightarrow> doc \<Rightarrow> error + doc"
  where
  "headerCells L T y i [] x d = Inr d"
| "headerCells L T y i (h # hs) x d =
     (let d1 = setFont (t_headerFont T) (t_fontSize T) (t_headerColor T) d;
          cw = nth_opt (t_colWidths T) i;
          opts = (case cw of
                    Some w \<Rightarrow> no_opts\<lparr> o_width := Some (w - t_cellPadding T * 2),
                                       o_align := Some ''left'' \<rparr>
                  | None \<Rightarrow> no_opts\<lparr> o_widthNaN := True, o_align := Some ''left'' \<rparr>)
      in case x of
           Some xv \<Rightarrow>
             headerCells L T y (Suc i) hs (js_add x cw)
               (textAt L h (xv + t_cellPadding T) (y + t_cellPadding T) opts d1)
         | None \<Rightarrow>
             (if h = [] then
                headerCells L T y (Suc i) hs (js_add x cw)
                  ((emit (PNaN ''text'') d1)\<lparr> doc_y := y + t_cellPadding T \<rparr>)
              else Inl UnsupportedNumber))"

text \<open>\<^verbatim>\<open>Array.isArray(row) ? row : Object.values(row)\<close>\<close>

definition rowCells :: "row \<Rightarrow> cell list" where
  "rowCells r = (case r of RowArray cs \<Rightarrow> cs | RowObject kvs \<Rightarrow> map snd kvs)"

text \<open>\<^verbatim>\<open>colWidths[ci] || 100\<close>\<close>

definition cellWidth :: "real list \<Rightarrow> nat \<Rightarrow> real" where
  "cellWidth colWidths ci = num_or (nth_opt colWidths ci) 100"

text \<open>\<^verbatim>\<open>String(cell ?? "")\<close>\<close>

definition cellString :: "cell \<Rightarrow> string" where
  "cellString c =
     (case c of CUndefined \<Rightarrow> [] | CNull \<Rightarrow> [] | CStr s \<Rightarrow> s
      | CObj t l col \<Rightarrow> ''[object Object]'')"

definition renderCell :: "lib \<Rightarrow> table_ctx \<Rightarrow> real \<Rightarrow> real \<Rightarrow> real \<Rightarrow> cell \<Rightarrow> doc \<Rightarrow> doc" where
  "renderCell L T y x w c d =
     (let d1 = setFont (t_bodyFont T) (t_fontSize T) ''#000000'' d;
          plain = textAt L (cellString c) (x + t_cellPadding T) (y + t_cellPadding T)
                    (no_opts\<lparr> o_width := Some (w - t_cellPadding T * 2) \<rparr>) d1
      in case c of
           CObj t l col \<Rightarrow>
             (if truthy_str l then
                (let d2 = fillColor (str_or col ''#1a0dab'') d1;
                     d3 = textAt L (str_or t []) (x + t_cellPadding T) (y + t_cellPadding T)
                            (no_opts\<lparr> o_width := Some (w - t_cellPadding T * 2),
                                      o_link := l, o_underline := True \<rparr>) d2
                 in fillColor ''#000000'' d3)
              else plain)
         | _ \<Rightarrow> plain)"

fun renderCells :: "lib \<Rightarrow> table_ctx \<Rightarrow> real \<Rightarrow> nat \<Rightarrow> cell list \<Rightarrow> real \<Rightarrow> doc \<Rightarrow> doc" where
  "renderCells L T y ci [] x d = d"
| "renderCells L T y ci (c # cs) x d =
     (let w = cellWidth (t_colWidths T) ci;
          d1 = renderCell L T y x w c d
      in renderCells L T y (Suc ci) cs (x + w) d1)"

text \<open>The check before a body row: a row that would end below the content area starts a page.\<close>

definition rowPageCheck :: "table_ctx \<Rightarrow> doc \<times> real \<Rightarrow> doc \<times> real" where
  "rowPageCheck T s =
     (case s of (d, y) \<Rightarrow>
        if y + t_rowHeight T > page_height d - margin_bottom d
        then (addPage d, margin_top (addPage d))
        else (d, y))"

definition rowBackground :: "table_ctx \<Rightarrow> nat \<Rightarrow> doc \<times> real \<Rightarrow> doc" where
  "rowBackground T ri s =
     (case s of (d, y) \<Rightarrow>
        if ri mod 2 = 1
        then restore (fillRect (t_startX T) y (sum_list (t_colWidths T)) (t_rowHeight T)
                        (t_rowAltBg T) (save d))
        else d)"

text \<open>One turn of \<^verbatim>\<open>rows.forEach((row, ri) => ...)\<close>, on the document and the local \<open>y\<close>.\<close>

definition renderRow :: "lib \<Rightarrow> table_ctx \<Rightarrow> nat \<Rightarrow> row \<Rightarrow> doc \<times> real \<Rightarrow> doc \<times> real" where
  "renderRow L T ri r s =
     (let s1 = rowPageCheck T s;
          d2 = rowBackground T ri s1;
          d3 = renderCells L T (snd s1) 0 (rowCells r) (t_startX T) d2
      in (d3, snd s1 + t_rowHeight T))"

fun renderRows :: "lib \<Rightarrow> table_ctx \<Rightarrow> nat \<Rightarrow> row list \<Rightarrow> doc \<times> real \<Rightarrow> doc \<times> real" where
  "renderRows L T ri [] s = s"
| "renderRows L T ri (r # rs) s = renderRows L T (Suc ri) rs (renderRow L T ri r s)"

definition renderHeader ::
    "lib \<Rightarrow> table_ctx \<Rightarrow> string list \<Rightarrow> doc \<times> real \<Rightarrow> error + (doc \<times> real)" where
  "renderHeader L T headers s =
     (case s of (d, y) \<Rightarrow>
        if headers \<noteq> [] then
          (let d1 = restore (fillRect (t_startX T) y (sum_list (t_colWidths T)) (t_rowHeight T)
                               (t_headerBg T) (save d))
           in case headerCells L T y 0 headers (Some (t_startX T)) d1 of
                Inl e \<Rightarrow> Inl e
              | Inr d2 \<Rightarrow> Inr (d2, y + t_rowHeight T))
        else Inr (d, y))"

text \<open>What \<^verbatim>\<open>_renderTable\<close> does after the header: the body rows, the border, the cursor.\<close>

definition renderTableBody :: "lib \<Rightarrow> table_ctx \<Rightarrow> attrs \<Rightarrow> doc \<times> real \<Rightarrow> doc" where
  "renderTableBody L T a s1 =
     (let s2 = renderRows L T 0 (tableRows a) s1;
          d2 = fst s2;
          y = snd s2;
          d3 = (if el_gridLines a \<noteq> Some False then
                  (let totalW = sum_list (t_colWidths T);
                       d' = setStroke (str_or (el_gridColor a) ''#CCCCCC'') 0.5 d2
                   in strokeLine (t_startX T) y (t_startX T + totalW) y d')
                else d2)
      in d3\<lparr> doc_x := t_startX T, doc_y := y + 5 \<rparr>)"

definition renderTable :: "lib \<Rightarrow> engine \<Rightarrow> attrs \<Rightarrow> doc \<Rightarrow> error + doc" where
  "renderTable L E a d =
     (let T = tableCtx E a d
      in case renderHeader L T (tableHeaders a) (d, doc_y d) of
           Inl e \<Rightarrow> Inl e
         | Inr s1 \<Rightarrow> Inr (renderTableBody L T a s1))"

subsection \<open>Images, dividers, spacers, rectangles, overlays\<close>

definition renderImage :: "lib \<Rightarrow> attrs \<Rightarrow> doc \<Rightarrow> error + doc" where
  "renderImage L a d =
     (let opts = \<lparr> io_width = keep_num (el_width a), io_height = keep_num (el_height a),
                   io_fit = el_fit a, io_align = keep_str (el_align a),
                   io_valign = keep_str (el_valign a) \<rparr>;
          r = (if el_x a \<noteq> None \<and> el_y a \<noteq> None
               then imageAt L (el_src a) (el_x a) (el_y a) opts d
               else imageAt L (el_src a) None None opts d)
      in case r of
           Inl e \<Rightarrow> Inl e
         | Inr d1 \<Rightarrow>
             (let d2 = (if truthy_str (el_link a) then
                          (let x = num_or (el_x a) (doc_x d1);
                               imgY = num_or (el_y a) (doc_y d1);
                               w = num_or (el_width a) 100;
                               h = num_or (el_height a) 100
                           in link x (imgY - h) w h (text_arg (el_link a)) d1)
                        else d1)
              in Inr (moveDownIf L (el_moveDown a) d2)))"

definition renderDivider :: "attrs \<Rightarrow> doc \<Rightarrow> doc" where
  "renderDivider a d =
     (let x = num_or (el_x a) (margin_left d);
          w = num_or (el_width a) (page_width d - margin_left d - margin_right d);
          y = doc_y d;
          d1 = setStroke (str_or (el_color a) ''#CCCCCC'') (num_or (el_thickness a) 1) d;
          d2 = strokeLine x y (x + w) y d1
      in d2\<lparr> doc_y := y + num_or (el_spacing a) 10 \<rparr>)"

definition renderSpacer :: "lib \<Rightarrow> attrs \<Rightarrow> doc \<Rightarrow> doc" where
  "renderSpacer L a d = moveDown L (num_or (el_lines a) 1) d"

text \<open>
  A rectangle is drawn at the coordinates of the element, which the renderer hands to
  the library as they are; the library raises when one of them is absent.
\<close>

definition rectCoords :: "attrs \<Rightarrow> (real \<times> real \<times> real \<times> real) option" where
  "rectCoords a =
     (case (el_x a, el_y a, el_width a, el_height a) of
        (Some x, Some y, Some w, Some h) \<Rightarrow> Some (x, y, w, h)
      | _ \<Rightarrow> None)"

definition renderRect :: "attrs \<Rightarrow> doc \<Rightarrow> error + doc" where
  "renderRect a d =
     (let d1 = save d
      in case (if truthy_str (el_fill a) then
                 (case rectCoords a of
                    None \<Rightarrow> Inl UnsupportedNumber
                  | Some (x, y, w, h) \<Rightarrow> Inr (fillRect x y w h (text_arg (el_fill a)) d1))
               else Inr d1) of
           Inl e \<Rightarrow> Inl e
         | Inr d2 \<Rightarrow>
             (case (if truthy_str (el_stroke a) then
                      (let d' = setStroke (text_arg (el_stroke a)) (num_or (el_lineWidth a) 1) d2
                       in case rectCoords a of
                            None \<Rightarrow> Inl UnsupportedNumber
                          | Some (x, y, w, h) \<Rightarrow> Inr (strokeRect x y w h d'))
                    else Inr d2) of
                Inl e \<Rightarrow> Inl e
              | Inr d3 \<Rightarrow>
                  (let d4 = restore d3
                   in if truthy_str (el_link a) then
                        (case rectCoords a of
                           None \<Rightarrow> Inl UnsupportedNumber
                         | Some (x, y, w, h) \<Rightarrow> Inr (link x y w h (text_arg (el_link a)) d4))
                      else Inr d4)))"

text \<open>The faint bars of an overlay; each takes the next value of \<^verbatim>\<open>Math.random()\<close>.\<close>

fun overlayLines :: "lib \<Rightarrow> real \<Rightarrow> real \<Rightarrow> real \<Rightarrow> real \<Rightarrow> string \<Rightarrow> nat list \<Rightarrow> doc \<Rightarrow> doc" where
  "overlayLines L leftMargin startY lineGap contentW lineColor [] d = d"
| "overlayLines L leftMargin startY lineGap contentW lineColor (i # is) d =
     (let ly = startY + lineGap * real i;
          lw = contentW * (0.4 + l_random L (rng_calls d) * 0.45);
          d1 = fillRect leftMargin ly lw 8 lineColor (d\<lparr> rng_calls := rng_calls d + 1 \<rparr>)
      in overlayLines L leftMargin startY lineGap contentW lineColor is d1)"

text \<open>
  \<^verbatim>\<open>for (let i = 1; i <= lines; i++)\<close> runs over \<open>1, ..., \<lfloor>lines\<rfloor>\<close>.  The quotient
  \<open>lineGap\<close> is only used inside the loop, where \<open>lines + 2\<close> is at least 3.
\<close>

definition renderOverlay :: "lib \<Rightarrow> attrs \<Rightarrow> doc \<Rightarrow> doc" where
  "renderOverlay L a d =
     (let pageWidth = page_width d;
          leftMargin = margin_left d;
          rightMargin = margin_right d;
          contentW = pageWidth - leftMargin - rightMargin;
          overlayHeight = num_or (el_height a) 200;
          startY = doc_y d;
          lines = num_nullish (el_lines a) 6;
          lineColor = str_or (el_lineColor a) ''#E0E0E0'';
          lineGap = overlayHeight / (lines + 2);
          d1 = restore (overlayLines L leftMargin startY lineGap contentW lineColor
                          [1 ..< Suc (nat \<lfloor>lines\<rfloor>)] (save d));
          overlayColor = str_or (el_color a) ''#FFFFFF'';
          opacity = num_nullish (el_opacity a) 0.85;
          d2 = restore (fillRect leftMargin startY contentW overlayHeight overlayColor
                          (emit (POpacity opacity) (save d1)));
          label = str_or (el_label a) ''Click to View'';
          labelSize = num_or (el_labelSize a) 18;
          labelColor = str_or (el_labelColor a) ''#1a0dab'';
          labelY = startY + overlayHeight / 2 - labelSize / 2;
          d3 = setFont ''Helvetica-Bold'' labelSize labelColor d2;
          textOpts = no_opts\<lparr> o_width := Some contentW, o_align := Some ''center'',
                       o_underline := True, o_link := keep_str (el_url a) \<rparr>;
          d4 = textAt L label leftMargin labelY textOpts d3;
          d5 = (if truthy_str (el_url a)
                then link leftMargin startY contentW overlayHeight (text_arg (el_url a)) d4
                else d4);
          d6 = fillColor ''#000000'' d5
      in d6\<lparr> doc_x := leftMargin, doc_y := startY + overlayHeight + 10 \<rparr>)"

subsection \<open>The dispatcher and columns\<close>

text \<open>\<^verbatim>\<open>{ ...child, width: colWidth }\<close>\<close>

fun patched :: "real \<Rightarrow> element \<Rightarrow> element" where
  "patched colWidth (Element t a cols) = Element t (a\<lparr> el_width := Some colWidth \<rparr>) cols"

text \<open>\<^verbatim>\<open>col.elements || col.content || []\<close>; an array is truthy even when empty.\<close>

fun colElements :: "column \<Rightarrow> element list" where
  "colElements (Column (Some es) c) = es"
| "colElements (Column None (Some es)) = es"
| "colElements (Column None None) = []"

text \<open>The gap and the column width \<^verbatim>\<open>_renderColumns\<close> computes before its loop.\<close>

definition columnsGap :: "attrs \<Rightarrow> real" where
  "columnsGap a = num_or (el_gap a) 20"

definition columnWidth :: "attrs \<Rightarrow> nat \<Rightarrow> doc \<Rightarrow> real" where
  "columnWidth a n d =
     (let gap = columnsGap a;
          totalWidth = page_width d - margin_left d - margin_right d
      in (totalWidth - gap * (real n - 1)) / real n)"

text \<open>
  \<^verbatim>\<open>_renderElement\<close> dispatches on the type string; \<^verbatim>\<open>_renderColumns\<close> calls it back
  for the children of every column (\<open>renderChildren\<close> is the inner \<^verbatim>\<open>for\<close> loop,
  \<open>renderColumnsLoop\<close> is \<^verbatim>\<open>columns.forEach((col, i) => ...)\<close> on the document and the
  local \<open>maxY\<close>).  An exception of a renderer leaves every enclosing loop.
\<close>

function renderElement :: "lib \<Rightarrow> engine \<Rightarrow> element \<Rightarrow> doc \<Rightarrow> error + doc"
  and renderChildren :: "lib \<Rightarrow> engine \<Rightarrow> real \<Rightarrow> element list \<Rightarrow> doc \<Rightarrow> error + doc"
  and renderColumnsLoop ::
    "lib \<Rightarrow> engine \<Rightarrow> real \<Rightarrow> real \<Rightarrow> real \<Rightarrow> nat \<Rightarrow> column list \<Rightarrow> doc \<Rightarrow> real
       \<Rightarrow> error + (doc \<times> real)"
  where
  "renderElement L E (Element t a columns) d =
     (if t = ''text'' then Inr (renderText L E a d)
      else if t = ''heading'' then Inr (renderHeading L E a d)
      else if t = ''link'' then Inr (renderLink L E a d)
      else if t = ''list'' then Inr (renderList L E a d)
      else if t = ''table'' then renderTable L E a d
      else if t = ''image'' then renderImage L a d
      else if t = ''divider'' then Inr (renderDivider a d)
      else if t = ''spacer'' then Inr (renderSpacer L a d)
      else if t = ''columns'' then
        (let gap = columnsGap a;
             colWidth = columnWidth a (length columns) d;
             startY = doc_y d
         in case renderColumnsLoop L E colWidth gap startY 0 columns d startY of
              Inl e \<Rightarrow> Inl e
            | Inr (d1, maxY) \<Rightarrow> Inr (d1\<lparr> doc_x := margin_left d1, doc_y := maxY \<rparr>))
      else if t = ''rect'' then renderRect a d
      else if t = ''overlay'' then Inr (renderOverlay L a d)
      else if t = ''stealthLink'' then Inr (renderStealthLink L E a d)
      else if t = ''pageBreak'' then Inr (addPage d)
      else Inr d)"
| "renderChildren L E colWidth [] d = Inr d"
| "renderChildren L E colWidth (child # rest) d =
     (case renderElement L E (patched colWidth child) d of
        Inl e \<Rightarrow> Inl e
      | Inr d1 \<Rightarrow> renderChildren L E colWidth rest d1)"
| "renderColumnsLoop L E colWidth gap startY i [] d maxY = Inr (d, maxY)"
| "renderColumnsLoop L E colWidth gap startY i (col # cols) d maxY =
     (let x = margin_left d + real i * (colWidth + gap);
          d1 = d\<lparr> doc_x := x, doc_y := startY \<rparr>
      in case renderChildren L E colWidth (colElements col) d1 of
           Inl e \<Rightarrow> Inl e
         | Inr d2 \<Rightarrow>
             renderColumnsLoop L E colWidth gap startY (Suc i) cols d2
               (if doc_y d2 > maxY then doc_y d2 else maxY))"
  by pat_completeness auto

termination
  apply (relation "measure (\<lambda>v. case v of
        Inl (L, E, e, d) \<Rightarrow> 2 * size e
      | Inr (Inl (L, E, w, es, d)) \<Rightarrow> 2 * size_list size es + 1
      | Inr (Inr (L, E, w, g, sy, i, cs, d, m)) \<Rightarrow> 2 * size_list size cs + 1)")
  apply simp_all
  subgoal for colWidth child rest by (cases child) simp
  subgoal for colWidth gap startY i col by (cases col rule: colElements.cases) simp_all
  done

declare renderElement.simps [simp del]

subsection \<open>The render session and the page-numbering pass\<close>

text \<open>One turn of the loop of \<^verbatim>\<open>_addPageNumbers\<close>, for the page index \<open>i\<close>.\<close>

definition footerText :: "pn_opts \<Rightarrow> nat \<Rightarrow> nat \<Rightarrow> string" where
  "footerText opts count i =
     str_or (pn_prefix opts) ''Page '' @ show_nat (i + 1) @ '' of '' @ show_nat count"

definition stampPage :: "lib \<Rightarrow> engine \<Rightarrow> pn_opts \<Rightarrow> nat \<Rightarrow> nat \<Rightarrow> doc \<Rightarrow> doc" where
  "stampPage L E opts count i d =
     (let align = str_or (pn_align opts) ''center'';
          fontSize = num_or (pn_fontSize opts) 10;
          d1 = switchToPage i d;
          d2 = setFont (defaultFont E) fontSize (str_or (pn_color opts) ''#888888'') d1
      in textAt L (footerText opts count i)
           (margin_left d2) (page_height d2 - margin_bottom d2 + 15)
           (no_opts\<lparr> o_align := Some align,
                     o_width := Some (page_width d2 - margin_left d2 - margin_right d2) \<rparr>) d2)"

definition addPageNumbers :: "lib \<Rightarrow> engine \<Rightarrow> pn_opts \<Rightarrow> doc \<Rightarrow> doc" where
  "addPageNumbers L E opts d =
     (let count = page_count d
      in fold (stampPage L E opts count) [0 ..< count] d)"

text \<open>The loop of \<^verbatim>\<open>_render\<close> over the top-level elements.\<close>

fun renderAll :: "lib \<Rightarrow> engine \<Rightarrow> element list \<Rightarrow> doc \<Rightarrow> error + doc" where
  "renderAll L E [] d = Inr d"
| "renderAll L E (el # els) d =
     (case renderElement L E el d of
        Inl e \<Rightarrow> Inl e
      | Inr d1 \<Rightarrow> renderAll L E els d1)"

text \<open>\<^verbatim>\<open>spec.elements || spec.content || []\<close>\<close>

definition specElements :: "spec \<Rightarrow> element list" where
  "specElements sp =
     (case sp_elements sp of
        Some es \<Rightarrow> es
      | None \<Rightarrow> (case sp_content sp of Some es \<Rightarrow> es | None \<Rightarrow> []))"

definition render :: "lib \<Rightarrow> engine \<Rightarrow> spec \<Rightarrow> doc \<Rightarrow> error + doc" where
  "render L E sp d =
     (case renderAll L E (specElements sp) d of
        Inl e \<Rightarrow> Inl e
      | Inr d1 \<Rightarrow>
          (case sp_pageNumbers sp of
             Some opts \<Rightarrow> Inr (addPageNumbers L E opts d1)
           | None \<Rightarrow> Inr d1))"

text \<open>The kinds the \<^verbatim>\<open>switch\<close> of \<^verbatim>\<open>_renderElement\<close> has a case for.\<close>

definition registeredKinds :: "string list" where
  "registeredKinds =
     [''text'', ''heading'', ''link'', ''list'', ''table'', ''image'', ''divider'',
      ''spacer'', ''columns'', ''rect'', ''overlay'', ''stealthLink'', ''pageBreak'']"

section \<open>Reading the output\<close>

text \<open>The drawing calls made between two states of the document.\<close>

definition emitted :: "doc \<Rightarrow> doc \<Rightarrow> (nat \<times> prim) list" where
  "emitted d d' = drop (length (prims d)) (prims d')"

text \<open>
  The drawing calls of a renderer that may raise, in the document it delivers: a run that
  raises delivers no document.
\<close>

definition emittedBy :: "doc \<Rightarrow> error + doc \<Rightarrow> (nat \<times> prim) list" where
  "emittedBy d r = (case r of Inl e \<Rightarrow> [] | Inr d' \<Rightarrow> emitted d d')"

text \<open>
  The visible character stream is the strings of the text calls; the annotation layer
  is the URLs of the clickable regions and of the link options of text calls.
\<close>

fun visibleText :: "prim \<Rightarrow> string list" where
  "visibleText (PText s tx ty opts f sz c) = [s]"
| "visibleText p = []"

fun annotationUrls :: "prim \<Rightarrow> string list" where
  "annotationUrls (PLink lx ly lw lh u) = [u]"
| "annotationUrls (PText s tx ty opts f sz c) = (case o_link opts of None \<Rightarrow> [] | Some u \<Rightarrow> [u])"
| "annotationUrls p = []"

definition visibleStream :: "(nat \<times> prim) list \<Rightarrow> string list" where
  "visibleStream ps = concat (map (\<lambda>p. visibleText (snd p)) ps)"

definition annotationLayer :: "(nat \<times> prim) list \<Rightarrow> string list" where
  "annotationLayer ps = concat (map (\<lambda>p. annotationUrls (snd p)) ps)"

fun isText :: "prim \<Rightarrow> bool" where
  "isText (PText s tx ty opts f sz c) = True"
| "isText p = False"

fun isFillRect :: "prim \<Rightarrow> bool" where
  "isFillRect (PFillRect rx ry rw rh c) = True"
| "isFillRect p = False"

fun isLink :: "prim \<Rightarrow> bool" where
  "isLink (PLink lx ly lw lh u) = True"
| "isLink p = False"

text \<open>
  The state of \<^verbatim>\<open>_renderTable\<close> (the document and the local \<open>y\<close>) when the header is
  drawn, and when the header and the first \<open>i\<close> body rows are drawn.  (When the header
  raises, no row is drawn; the states are then counted from the state before the header.)
\<close>

definition headerState :: "lib \<Rightarrow> engine \<Rightarrow> attrs \<Rightarrow> doc \<Rightarrow> doc \<times> real" where
  "headerState L E a d =
     (case renderHeader L (tableCtx E a d) (tableHeaders a) (d, doc_y d) of
        Inl e \<Rightarrow> (d, doc_y d)
      | Inr s \<Rightarrow> s)"

definition tableRowState :: "lib \<Rightarrow> engine \<Rightarrow> attrs \<Rightarrow> doc \<Rightarrow> nat \<Rightarrow> doc \<times> real" where
  "tableRowState L E a d i =
     renderRows L (tableCtx E a d) 0 (take i (tableRows a)) (headerState L E a d)"





text \<open>The drawing calls of the background of body row \<open>ri\<close> at height \<open>y\<close> on page \<open>pg\<close>.\<close>

definition rowBackgroundPrims :: "table_ctx \<Rightarrow> nat \<Rightarrow> nat \<Rightarrow> real \<Rightarrow> (nat \<times> prim) list" where
  "rowBackgroundPrims T ri pg y =
     (if ri mod 2 = 1
      then [(pg, PSave),
            (pg, PFillRect (t_startX T) y (sum_list (t_colWidths T)) (t_rowHeight T) (t_rowAltBg T)),
            (pg, PRestore)]
      else [])"

text \<open>The footer the page-numbering pass writes on page \<open>i\<close> of \<open>count\<close>.\<close>

definition footerPrim :: "engine \<Rightarrow> pn_opts \<Rightarrow> doc \<Rightarrow> nat \<Rightarrow> nat \<Rightarrow> prim" where
  "footerPrim E opts d count i =
     PText (footerText opts count i) (margin_left d) (page_height d - margin_bottom d + 15)
       (no_opts\<lparr> o_align := Some (str_or (pn_align opts) ''center''),
                 o_width := Some (page_width d - margin_left d - margin_right d) \<rparr>)
       (defaultFont E) (num_or (pn_fontSize opts) 10) (str_or (pn_color opts) ''#888888'')"




section \<open>A test page\<close>

text \<open>
  A library that breaks a text into one line for every 30 characters begun, with lines
  as high as the font size and characters 5 points wide, on pages of 600 by 800 points,
  and the engine with its default options (margins of 50 points, Helvetica at 12
  points).
\<close>

definition demoLib :: lib where
  "demoLib = \<lparr> l_text_lines = (\<lambda>d s opts. if s = [] then 0 else 1 + length s div 30),
      l_string_width = (\<lambda>d s. 5 * real (length s)),
      l_line_height = (\<lambda>d. cur_fontSize d),
      l_image_dims = (\<lambda>s opts. if s = ''logo.png'' then Some (100, 50) else None),
      l_random = (\<lambda>n. 1 / 2),
      l_page_dims = (\<lambda>s. (600, 800)) \<rparr>"

definition demoEngine :: engine where
  "demoEngine = newEngine \<lparr> eo_defaultFontSize = None, eo_defaultFont = None,
      eo_margins = None, eo_size = None \<rparr>"

definition demoSpec :: spec where
  "demoSpec = \<lparr> sp_size = None, sp_margins = None, sp_elements = None, sp_content = None,
      sp_pageNumbers = None \<rparr>"

definition demoDoc :: doc where
  "demoDoc = createDocument demoLib demoEngine demoSpec"

definition demoStealth :: attrs where
  "demoStealth = no_attrs\<lparr> el_value := Some ''View Document'',
      el_url := Some ''https://example.com/secret'' \<rparr>"

definition demoExposed :: attrs where
  "demoExposed = no_attrs\<lparr> el_value := Some ''https://example.com/secret'',
      el_url := Some ''https://example.com/secret'' \<rparr>"

definition demoText :: element where
  "demoText = Element ''text'' (no_attrs\<lparr> el_value := Some ''Still works'' \<rparr>) []"

definition demoLink :: attrs where
  "demoLink = no_attrs\<lparr> el_url := Some ''https://example.com/visible'' \<rparr>"


definition demoRows :: attrs where
  "demoRows = no_attrs\<lparr> el_columnWidths := Some [100, 100],
      el_rows := Some [RowArray [CStr ''r0''], RowArray [CStr ''r1''], RowArray [CStr ''r2''],
                       RowArray [CStr ''r3'']] \<rparr>"

definition demoLow :: doc where
  "demoLow = demoDoc\<lparr> doc_y := 700 \<rparr>"

definition demoLinkTable :: attrs where
  "demoLinkTable = no_attrs\<lparr> el_columnWidths := Some [200],
      el_rows := Some [RowArray [CObj (Some ''Visit'') (Some ''https://google.com'') None]] \<rparr>"

definition demoCtx :: table_ctx where
  "demoCtx = tableCtx demoEngine demoLinkTable demoDoc"

definition demoPn :: pn_opts where
  "demoPn = \<lparr> pn_align = None, pn_fontSize = None, pn_prefix = None, pn_color = None \<rparr>"

definition demoPaged :: spec where
  "demoPaged = \<lparr> sp_size = None, sp_margins = None,
      sp_elements = Some [Element ''pageBreak'' no_attrs [], Element ''pageBreak'' no_attrs [],
                          Element ''pageBreak'' no_attrs []],
      sp_content = None,
      sp_pageNumbers = Some demoPn \<rparr>"

definition demoPaged1 :: doc where
  "demoPaged1 = demoDoc\<lparr> page_count := 4, cur_page := 3 \<rparr>"



definition demoWrapTable :: attrs where
  "demoWrapTable = no_attrs\<lparr> el_columnWidths := Some [100, 100, 100],
      el_rows := Some [RowArray
        [CStr ''this cell holds a text that the library wraps on three lines'',
         CStr ''b'', CStr ''c'']] \<rparr>"

definition demoLower :: doc where
  "demoLower = demoDoc\<lparr> doc_y := 720 \<rparr>"




definition demoWideHeader :: attrs where
  "demoWideHeader = no_attrs\<lparr> el_headers := Some [''A'', ''B'', ''C''],
      el_columnWidths := Some [100] \<rparr>"


section \<open>Basic facts\<close>

lemmas lib_ops = emit_def setFont_def fillColor_def setStroke_def
  moveDown_def fillRect_def strokeRect_def strokeLine_def link_def addPage_def
  switchToPage_def save_def restore_def

lemmas js_defs = truthy_str_def truthy_num_def truthy_bool_def str_or_def num_or_def
  num_nullish_def bool_nullish_def keep_str_def keep_num_def text_arg_def str_or_opt_def

lemmas demo_defs = demoLib_def demoEngine_def demoSpec_def demoDoc_def newEngine_def
  createDocument_def

lemma prims_moveDownIf [simp]: "prims (moveDownIf L v d) = prims d"
  by (simp add: moveDownIf_def moveDown_def split: option.splits)

lemma emitted_append: "prims d' = prims d @ ps \<Longrightarrow> emitted d d' = ps"
  by (simp add: emitted_def)

lemma wrapLines_prims [simp]: "prims (wrapLines L sx g c n d) = prims d"
  by (induction L sx g c n d rule: wrapLines.induct)
     (simp_all add: Let_def continueOnNewPage_def addPage_def)

lemma wrapLines_pages:
  "page_count d \<le> page_count (wrapLines L sx g c n d)
   \<and> (page_count (wrapLines L sx g c n d) = page_count d
        \<longrightarrow> cur_page (wrapLines L sx g c n d) = cur_page d)"
proof (induction L sx g c n d rule: wrapLines.induct)
  case (1 L startX gap cont d)
  then show ?case by simp
next
  case (2 L startX gap cont d)
  then show ?case by simp
next
  case (3 L startX gap cont n d)
  let ?d1 = "d\<lparr> doc_y := doc_y d + l_line_height L d + gap \<rparr>"
  let ?d2 = "if doc_y ?d1 + l_line_height L ?d1 > pageMaxY ?d1
             then continueOnNewPage startX ?d1 else ?d1"
  have ih: "page_count ?d2 \<le> page_count (wrapLines L startX gap cont (Suc n) ?d2)
     \<and> (page_count (wrapLines L startX gap cont (Suc n) ?d2) = page_count ?d2
          \<longrightarrow> cur_page (wrapLines L startX gap cont (Suc n) ?d2) = cur_page ?d2)"
    by (rule 3 [OF refl refl])
  have w: "wrapLines L startX gap cont (Suc (Suc n)) d = wrapLines L startX gap cont (Suc n) ?d2"
    by (simp add: Let_def)
  have p: "page_count d \<le> page_count ?d2"
    "page_count ?d2 = page_count d \<longrightarrow> cur_page ?d2 = cur_page d"
    by (simp_all add: continueOnNewPage_def addPage_def)
  show ?case
    unfolding w using ih p by auto
qed

lemma textFlow_prims:
  "prims (textFlow L s opts d) = prims d @
     [(textPage L opts d,
       PText s (doc_x d) (doc_y d) opts (cur_font d) (cur_fontSize d) (cur_fillColor d))]"
  by (simp add: textFlow_def textPage_def textStart_def Let_def continueOnNewPage_def
      addPage_def)

lemma textFlow_pages:
  "page_count d \<le> page_count (textFlow L s opts d)
   \<and> (page_count (textFlow L s opts d) = page_count d
        \<longrightarrow> cur_page (textFlow L s opts d) = cur_page d \<and> textPage L opts d = cur_page d)"
proof -
  let ?d0 = "textStart L opts d"
  let ?d1 = "?d0\<lparr> prims := prims ?d0 @
                  [(cur_page ?d0,
                    PText s (doc_x d) (doc_y d) opts (cur_font d) (cur_fontSize d)
                      (cur_fillColor d))] \<rparr>"
  have s: "page_count d \<le> page_count ?d1"
    "page_count ?d1 = page_count d \<longrightarrow> cur_page ?d1 = cur_page d \<and> textPage L opts d = cur_page d"
    by (simp_all add: textStart_def textPage_def continueOnNewPage_def addPage_def)
  show ?thesis
  proof (cases "wrapsText opts d")
    case True
    let ?w = "wrapLines L (doc_x d) (num_or (o_lineGap opts) 0) (o_continued opts)
                (l_text_lines L d s opts) ?d1"
    have t: "textFlow L s opts d = ?w"
      using True by (simp add: textFlow_def Let_def)
    from wrapLines_pages [where d = ?d1 and L = L and sx = "doc_x d"
        and g = "num_or (o_lineGap opts) 0" and c = "o_continued opts"
        and n = "l_text_lines L d s opts"]
    have w: "page_count ?d1 \<le> page_count ?w"
      "page_count ?w = page_count ?d1 \<longrightarrow> cur_page ?w = cur_page ?d1"
      by blast+
    show ?thesis
      unfolding t using s w by auto
  next
    case False
    then have t: "textFlow L s opts d = ?d1\<lparr> doc_x := doc_x d + l_string_width L d s \<rparr>"
      by (simp add: textFlow_def Let_def)
    show ?thesis
      unfolding t using s by simp
  qed
qed

lemma textAt_prims:
  "prims (textAt L s tx ty opts d) = prims d @
     [(textPage L opts (d\<lparr> doc_x := tx, doc_y := ty \<rparr>),
       PText s tx ty opts (cur_font d) (cur_fontSize d) (cur_fillColor d))]"
  by (simp add: textAt_def textFlow_prims)

lemma textAt_pages:
  "page_count d \<le> page_count (textAt L s tx ty opts d)
   \<and> (page_count (textAt L s tx ty opts d) = page_count d
        \<longrightarrow> cur_page (textAt L s tx ty opts d) = cur_page d
            \<and> textPage L opts (d\<lparr> doc_x := tx, doc_y := ty \<rparr>) = cur_page d)"
  using textFlow_pages [where d = "d\<lparr> doc_x := tx, doc_y := ty \<rparr>" and L = L and s = s
      and opts = opts]
  by (simp add: textAt_def)

lemma textPage_setFont [simp]:
  "page_count (setFont f z c d) = page_count d" "cur_page (setFont f z c d) = cur_page d"
  "prims (setFont f z c d) = prims d"
  "page_count (fillColor c d) = page_count d" "cur_page (fillColor c d) = cur_page d"
  "prims (fillColor c d) = prims d"
  by (simp_all add: setFont_def fillColor_def)

lemma renderElement_unknown:
  "t \<notin> set registeredKinds \<Longrightarrow> renderElement L E (Element t a cols) d = Inr d"
  by (simp add: registeredKinds_def renderElement.simps)

lemma renderElement_link:
  "renderElement L E (Element ''link'' a cols) d = Inr (renderLink L E a d)"
  by (simp add: renderElement.simps)

lemma renderElement_stealthLink:
  "renderElement L E (Element ''stealthLink'' a cols) d = Inr (renderStealthLink L E a d)"
  by (simp add: renderElement.simps)



lemma renderAll_append:
  "renderAll L E (xs @ ys) d =
     (case renderAll L E xs d of Inl e \<Rightarrow> Inl e | Inr d1 \<Rightarrow> renderAll L E ys d1)"
  by (induction xs arbitrary: d) (auto split: sum.splits)

lemma renderChildren_append:
  "renderChildren L E w (xs @ ys) d =
     (case renderChildren L E w xs d of Inl e \<Rightarrow> Inl e | Inr d1 \<Rightarrow> renderChildren L E w ys d1)"
  by (induction xs arbitrary: d) (auto split: sum.splits)

lemma renderCell_text:
  "\<exists>pg p. prims (renderCell L T y x w c d) = prims d @ [(pg, p)] \<and> isText p
     \<and> page_count d \<le> page_count (renderCell L T y x w c d)
     \<and> (page_count (renderCell L T y x w c d) = page_count d
          \<longrightarrow> cur_page (renderCell L T y x w c d) = cur_page d \<and> pg = cur_page d)"
proof -
  have plain: "\<exists>pg p. prims (textAt L s tx ty opts (setFont f z col d)) = prims d @ [(pg, p)]
     \<and> isText p
     \<and> page_count d \<le> page_count (textAt L s tx ty opts (setFont f z col d))
     \<and> (page_count (textAt L s tx ty opts (setFont f z col d)) = page_count d
          \<longrightarrow> cur_page (textAt L s tx ty opts (setFont f z col d)) = cur_page d \<and> pg = cur_page d)"
    for s tx ty opts f z col
    using textAt_pages [where d = "setFont f z col d" and L = L and s = s and tx = tx
        and ty = ty and opts = opts]
    by (simp add: textAt_prims)
  have linked: "\<exists>pg p. prims (fillColor c2 (textAt L s tx ty opts (fillColor c1 (setFont f z col d))))
         = prims d @ [(pg, p)]
     \<and> isText p
     \<and> page_count d \<le> page_count (fillColor c2 (textAt L s tx ty opts (fillColor c1 (setFont f z col d))))
     \<and> (page_count (fillColor c2 (textAt L s tx ty opts (fillColor c1 (setFont f z col d)))) = page_count d
          \<longrightarrow> cur_page (fillColor c2 (textAt L s tx ty opts (fillColor c1 (setFont f z col d)))) = cur_page d
              \<and> pg = cur_page d)"
    for s tx ty opts f z col c1 c2
    using textAt_pages [where d = "fillColor c1 (setFont f z col d)" and L = L and s = s
        and tx = tx and ty = ty and opts = opts]
    by (simp add: textAt_prims)
  show ?thesis
    using plain linked by (cases c) (simp_all add: renderCell_def Let_def)
qed

lemma renderCells_text:
  "\<exists>ps. prims (renderCells L T y ci cs x d) = prims d @ ps
      \<and> (\<forall>q\<in>set ps. isText (snd q))
      \<and> page_count d \<le> page_count (renderCells L T y ci cs x d)
      \<and> (page_count (renderCells L T y ci cs x d) = page_count d
           \<longrightarrow> cur_page (renderCells L T y ci cs x d) = cur_page d
               \<and> (\<forall>q\<in>set ps. fst q = cur_page d))"
proof (induction cs arbitrary: ci x d)
  case Nil
  then show ?case by simp
next
  case (Cons c cs)
  let ?w = "cellWidth (t_colWidths T) ci"
  let ?d1 = "renderCell L T y x ?w c d"
  let ?d2 = "renderCells L T y (Suc ci) cs (x + ?w) ?d1"
  from renderCell_text [where L = L and T = T and y = y and x = x and w = ?w and c = c and d = d]
  obtain pg p where p: "prims ?d1 = prims d @ [(pg, p)]" "isText p"
    "page_count d \<le> page_count ?d1"
    "page_count ?d1 = page_count d \<longrightarrow> cur_page ?d1 = cur_page d \<and> pg = cur_page d"
    by blast
  from Cons.IH [where ci = "Suc ci" and x = "x + ?w" and d = ?d1]
  obtain ps where ps: "prims ?d2 = prims ?d1 @ ps"
    "\<forall>q\<in>set ps. isText (snd q)"
    "page_count ?d1 \<le> page_count ?d2"
    "page_count ?d2 = page_count ?d1
       \<longrightarrow> cur_page ?d2 = cur_page ?d1 \<and> (\<forall>q\<in>set ps. fst q = cur_page ?d1)"
    by blast
  have r: "renderCells L T y ci (c # cs) x d = ?d2"
    by (simp add: Let_def)
  have a: "prims ?d2 = prims d @ ((pg, p) # ps)"
    using p(1) ps(1) by simp
  have b: "\<forall>q\<in>set ((pg, p) # ps). isText (snd q)"
    using p(2) ps(2) by simp
  have c: "page_count d \<le> page_count ?d2"
    using p(3) ps(3) by simp
  have e: "page_count ?d2 = page_count d
       \<longrightarrow> cur_page ?d2 = cur_page d \<and> (\<forall>q\<in>set ((pg, p) # ps). fst q = cur_page d)"
  proof
    assume q: "page_count ?d2 = page_count d"
    with p(3) ps(3) have q1: "page_count ?d1 = page_count d" and q2: "page_count ?d2 = page_count ?d1"
      by simp_all
    from p(4) q1 have "cur_page ?d1 = cur_page d" "pg = cur_page d" by simp_all
    moreover from ps(4) q2 have "cur_page ?d2 = cur_page ?d1" "\<forall>q\<in>set ps. fst q = cur_page ?d1"
      by simp_all
    ultimately show "cur_page ?d2 = cur_page d \<and> (\<forall>q\<in>set ((pg, p) # ps). fst q = cur_page d)"
      by simp
  qed
  show ?case
    unfolding r using a b c e by blast
qed

lemma filter_fill_text:
  "\<forall>q\<in>set ps. isText (snd q) \<Longrightarrow> filter (\<lambda>q. isFillRect (snd q)) ps = []"
proof (induction ps)
  case Nil
  then show ?case by simp
next
  case (Cons q ps)
  then have "isText (snd q)" by simp
  then have "\<not> isFillRect (snd q)" by (cases "snd q") simp_all
  with Cons show ?case by simp
qed

lemma rowPageCheck_prims: "prims (fst (rowPageCheck T s)) = prims (fst s)"
  by (cases s) (simp add: rowPageCheck_def addPage_def)

lemma rowBackground_prims:
  "prims (rowBackground T ri s) = prims (fst s) @ rowBackgroundPrims T ri (cur_page (fst s)) (snd s)"
  by (cases s) (simp add: rowBackground_def rowBackgroundPrims_def lib_ops)

lemma rowBackground_pages:
  "page_count (rowBackground T ri s) = page_count (fst s)"
  "cur_page (rowBackground T ri s) = cur_page (fst s)"
  by (cases s, simp add: rowBackground_def lib_ops)+

lemma renderRow_prims:
  "\<exists>ps. prims (fst (renderRow L T ri r s)) =
          prims (fst s) @ rowBackgroundPrims T ri (cur_page (fst (rowPageCheck T s)))
                            (snd (rowPageCheck T s)) @ ps
        \<and> (\<forall>q\<in>set ps. isText (snd q))
        \<and> page_count (fst (rowPageCheck T s)) \<le> page_count (fst (renderRow L T ri r s))
        \<and> (page_count (fst (renderRow L T ri r s)) = page_count (fst (rowPageCheck T s))
             \<longrightarrow> (\<forall>q\<in>set ps. fst q = cur_page (fst (rowPageCheck T s))))"
proof -
  let ?c = "rowPageCheck T s"
  let ?d2 = "rowBackground T ri ?c"
  let ?d3 = "renderCells L T (snd ?c) 0 (rowCells r) (t_startX T) ?d2"
  from renderCells_text [where d = ?d2 and L = L and T = T and y = "snd ?c" and ci = 0
      and cs = "rowCells r" and x = "t_startX T"]
  obtain ps where ps: "prims ?d3 = prims ?d2 @ ps"
    "\<forall>q\<in>set ps. isText (snd q)"
    "page_count ?d2 \<le> page_count ?d3"
    "page_count ?d3 = page_count ?d2
       \<longrightarrow> cur_page ?d3 = cur_page ?d2 \<and> (\<forall>q\<in>set ps. fst q = cur_page ?d2)"
    by blast
  have f: "fst (renderRow L T ri r s) = ?d3"
    by (simp add: renderRow_def Let_def)
  have "prims ?d3 = prims (fst s) @ rowBackgroundPrims T ri (cur_page (fst ?c)) (snd ?c) @ ps"
    using ps(1) by (simp add: rowBackground_prims rowPageCheck_prims)
  with ps(2-4) show ?thesis
    unfolding f by (auto simp add: rowBackground_pages)
qed

lemma renderRows_append:
  "renderRows L T ri (xs @ ys) s = renderRows L T (ri + length xs) ys (renderRows L T ri xs s)"
  by (induction xs arbitrary: ri s) simp_all

lemma tableRowState_Suc:
  assumes "i < length (tableRows a)"
  shows "tableRowState L E a d (Suc i) =
         renderRow L (tableCtx E a d) i (tableRows a ! i) (tableRowState L E a d i)"
proof -
  have "take (Suc i) (tableRows a) = take i (tableRows a) @ [tableRows a ! i]"
    using assms by (rule take_Suc_conv_app_nth)
  then show ?thesis
    using assms by (simp add: tableRowState_def renderRows_append)
qed

lemma tableRowState_0: "tableRowState L E a d 0 = headerState L E a d"
  by (simp add: tableRowState_def)

lemma renderTable_last_state:
  "renderTable L E a d = Inr d' \<Longrightarrow>
   d' = (let T = tableCtx E a d;
          s2 = tableRowState L E a d (length (tableRows a));
          d3 = (if el_gridLines a \<noteq> Some False then
                  strokeLine (t_startX T) (snd s2) (t_startX T + sum_list (t_colWidths T)) (snd s2)
                    (setStroke (str_or (el_gridColor a) ''#CCCCCC'') 0.5 (fst s2))
                else fst s2)
      in d3\<lparr> doc_x := t_startX T, doc_y := snd s2 + 5 \<rparr>)"
  by (auto simp add: renderTable_def renderTableBody_def tableRowState_def headerState_def
      Let_def split: sum.splits)

lemma rowPageCheck_cases:
  "(if snd s + t_rowHeight T > page_height (fst s) - margin_bottom (fst s)
    then rowPageCheck T s = (addPage (fst s), margin_top (fst s))
         \<and> cur_page (fst (rowPageCheck T s)) = page_count (fst s)
    else rowPageCheck T s = s)"
  by (cases s) (simp add: rowPageCheck_def addPage_def)

lemma rowPageCheck_fits:
  "snd (rowPageCheck T s) + t_rowHeight T
      \<le> page_height (fst (rowPageCheck T s)) - margin_bottom (fst (rowPageCheck T s))
   \<or> snd (rowPageCheck T s) = margin_top (fst (rowPageCheck T s))"
  by (cases s) (simp add: rowPageCheck_def addPage_def)


lemma if_holds: "(if C then P else Q) \<Longrightarrow> C \<Longrightarrow> P"
  by simp

lemma isText_not_link: "isText p \<Longrightarrow> \<not> isLink p"
  by (cases p) simp_all

lemma headerCells_nolink:
  "headerCells L T y i hs x d = Inr d' \<Longrightarrow>
   \<exists>ps. prims d' = prims d @ ps \<and> (\<forall>q\<in>set ps. \<not> isLink (snd q))"
proof (induction hs arbitrary: i x d)
  case Nil
  then show ?case by simp
next
  case (Cons h hs)
  let ?d1 = "setFont (t_headerFont T) (t_fontSize T) (t_headerColor T) d"
  let ?cw = "nth_opt (t_colWidths T) i"
  let ?opts = "(case ?cw of
                    Some w \<Rightarrow> no_opts\<lparr> o_width := Some (w - t_cellPadding T * 2),
                                       o_align := Some ''left'' \<rparr>
                  | None \<Rightarrow> no_opts\<lparr> o_widthNaN := True, o_align := Some ''left'' \<rparr>)"
  show ?case
  proof (cases x)
    case None
    let ?d2 = "(emit (PNaN ''text'') ?d1)\<lparr> doc_y := y + t_cellPadding T \<rparr>"
    from Cons.prems None have e: "h = []"
      and r: "headerCells L T y (Suc i) hs (js_add x ?cw) ?d2 = Inr d'"
      by (simp_all add: Let_def split: if_splits)
    from Cons.IH [OF r] obtain ps where ps: "prims d' = prims ?d2 @ ps"
      "\<forall>q\<in>set ps. \<not> isLink (snd q)" by blast
    have "prims d' = prims d @ ((cur_page d, PNaN ''text'') # ps)"
      using ps(1) by (simp add: lib_ops)
    moreover have "\<forall>q\<in>set ((cur_page d, PNaN ''text'') # ps). \<not> isLink (snd q)"
      using ps(2) by simp
    ultimately show ?thesis by blast
  next
    case (Some xv)
    let ?d2 = "textAt L h (xv + t_cellPadding T) (y + t_cellPadding T) ?opts ?d1"
    from Cons.prems Some have r: "headerCells L T y (Suc i) hs (js_add x ?cw) ?d2 = Inr d'"
      by (simp add: Let_def)
    from Cons.IH [OF r] obtain ps where ps: "prims d' = prims ?d2 @ ps"
      "\<forall>q\<in>set ps. \<not> isLink (snd q)" by blast
    obtain q where q: "prims ?d2 = prims d @ [q]" "\<not> isLink (snd q)"
      by (simp add: textAt_prims)
    have "prims d' = prims d @ (q # ps)"
      using ps(1) q(1) by simp
    moreover have "\<forall>q'\<in>set (q # ps). \<not> isLink (snd q')"
      using ps(2) q(2) by simp
    ultimately show ?thesis by blast
  qed
qed

lemma renderHeader_nolink:
  "renderHeader L T hs s = Inr s' \<Longrightarrow>
   \<exists>ps. prims (fst s') = prims (fst s) @ ps \<and> (\<forall>q\<in>set ps. \<not> isLink (snd q))"
proof (cases "hs = []")
  case True
  assume "renderHeader L T hs s = Inr s'"
  with True have "s' = s" by (cases s) (simp add: renderHeader_def)
  then show ?thesis by simp
next
  case False
  assume a: "renderHeader L T hs s = Inr s'"
  obtain d y where s: "s = (d, y)" by (cases s)
  let ?d1 = "restore (fillRect (t_startX T) y (sum_list (t_colWidths T)) (t_rowHeight T)
                               (t_headerBg T) (save d))"
  have d1: "prims ?d1 = prims d @ [(cur_page d, PSave),
       (cur_page d, PFillRect (t_startX T) y (sum_list (t_colWidths T)) (t_rowHeight T) (t_headerBg T)),
       (cur_page d, PRestore)]"
    by (simp add: lib_ops)
  from a False s obtain d2 where h: "headerCells L T y 0 hs (Some (t_startX T)) ?d1 = Inr d2"
    and s': "s' = (d2, y + t_rowHeight T)"
    by (auto simp add: renderHeader_def Let_def split: sum.splits)
  from headerCells_nolink [OF h]
  obtain ps where ps: "prims d2 = prims ?d1 @ ps" "\<forall>q\<in>set ps. \<not> isLink (snd q)"
    by blast
  have "prims (fst s') = prims (fst s) @ ([(cur_page d, PSave),
       (cur_page d, PFillRect (t_startX T) y (sum_list (t_colWidths T)) (t_rowHeight T) (t_headerBg T)),
       (cur_page d, PRestore)] @ ps)"
    using ps(1) d1 by (simp add: s s')
  moreover have "\<forall>q\<in>set ([(cur_page d, PSave),
       (cur_page d, PFillRect (t_startX T) y (sum_list (t_colWidths T)) (t_rowHeight T) (t_headerBg T)),
       (cur_page d, PRestore)] @ ps). \<not> isLink (snd q)"
    using ps(2) by simp
  ultimately show ?thesis by blast
qed

lemma renderRow_nolink:
  "\<exists>ps. prims (fst (renderRow L T ri r s)) = prims (fst s) @ ps \<and> (\<forall>q\<in>set ps. \<not> isLink (snd q))"
proof -
  from renderRow_prims [where L = L and T = T and ri = ri and r = r and s = s]
  obtain ps where ps: "prims (fst (renderRow L T ri r s)) =
          prims (fst s) @ rowBackgroundPrims T ri (cur_page (fst (rowPageCheck T s)))
                            (snd (rowPageCheck T s)) @ ps"
        "\<forall>q\<in>set ps. isText (snd q)"
    by blast
  have "\<forall>q\<in>set (rowBackgroundPrims T ri (cur_page (fst (rowPageCheck T s)))
                            (snd (rowPageCheck T s)) @ ps). \<not> isLink (snd q)"
    using ps(2) by (auto simp add: rowBackgroundPrims_def isText_not_link)
  with ps(1) show ?thesis by blast
qed

lemma renderRows_nolink:
  "\<exists>ps. prims (fst (renderRows L T ri rs s)) = prims (fst s) @ ps \<and> (\<forall>q\<in>set ps. \<not> isLink (snd q))"
proof (induction rs arbitrary: ri s)
  case Nil
  then show ?case by simp
next
  case (Cons r rs)
  from renderRow_nolink [where L = L and T = T and ri = ri and r = r and s = s]
  obtain ps1 where ps1: "prims (fst (renderRow L T ri r s)) = prims (fst s) @ ps1"
    "\<forall>q\<in>set ps1. \<not> isLink (snd q)" by blast
  from Cons.IH [where ri = "Suc ri" and s = "renderRow L T ri r s"]
  obtain ps2 where ps2: "prims (fst (renderRows L T (Suc ri) rs (renderRow L T ri r s)))
      = prims (fst (renderRow L T ri r s)) @ ps2"
    "\<forall>q\<in>set ps2. \<not> isLink (snd q)" by blast
  have "prims (fst (renderRows L T ri (r # rs) s)) = prims (fst s) @ (ps1 @ ps2)"
    using ps1 ps2 by simp
  moreover have "\<forall>q\<in>set (ps1 @ ps2). \<not> isLink (snd q)"
    using ps1 ps2 by auto
  ultimately show ?case by blast
qed

lemma renderTableBody_nolink:
  "\<exists>ps. prims (renderTableBody L T a s) = prims (fst s) @ ps \<and> (\<forall>q\<in>set ps. \<not> isLink (snd q))"
proof -
  let ?s2 = "renderRows L T 0 (tableRows a) s"
  from renderRows_nolink [where L = L and T = T and ri = 0 and rs = "tableRows a" and s = s]
  obtain ps2 where ps2: "prims (fst ?s2) = prims (fst s) @ ps2" "\<forall>q\<in>set ps2. \<not> isLink (snd q)"
    by blast
  have "\<exists>ps3. prims (renderTableBody L T a s) = prims (fst ?s2) @ ps3
      \<and> (\<forall>q\<in>set ps3. \<not> isLink (snd q))"
    by (simp add: renderTableBody_def Let_def lib_ops)
  then obtain ps3 where ps3: "prims (renderTableBody L T a s) = prims (fst ?s2) @ ps3"
    "\<forall>q\<in>set ps3. \<not> isLink (snd q)" by blast
  have "prims (renderTableBody L T a s) = prims (fst s) @ (ps2 @ ps3)"
    using ps2 ps3 by simp
  moreover have "\<forall>q\<in>set (ps2 @ ps3). \<not> isLink (snd q)"
    using ps2 ps3 by auto
  ultimately show ?thesis by blast
qed

lemma renderTable_nolink:
  "filter (\<lambda>q. isLink (snd q)) (emittedBy d (renderTable L E a d)) = []"
proof (cases "renderTable L E a d")
  case (Inl e)
  then show ?thesis by (simp add: emittedBy_def)
next
  case (Inr d')
  let ?T = "tableCtx E a d"
  from Inr obtain s1 where h: "renderHeader L ?T (tableHeaders a) (d, doc_y d) = Inr s1"
    and d': "d' = renderTableBody L ?T a s1"
    by (auto simp add: renderTable_def Let_def split: sum.splits)
  from renderHeader_nolink [OF h]
  obtain ps1 where ps1: "prims (fst s1) = prims d @ ps1" "\<forall>q\<in>set ps1. \<not> isLink (snd q)"
    by auto
  from renderTableBody_nolink [where L = L and T = ?T and a = a and s = s1]
  obtain ps2 where ps2: "prims d' = prims (fst s1) @ ps2" "\<forall>q\<in>set ps2. \<not> isLink (snd q)"
    unfolding d' by blast
  have "emitted d d' = ps1 @ ps2"
    using ps1 ps2 by (simp add: emitted_def)
  then show ?thesis
    using ps1 ps2 Inr by (simp add: emittedBy_def filter_empty_conv)
qed








lemma wrapLines_geometry:
  "page_width (wrapLines L sx g c n d) = page_width d
   \<and> page_height (wrapLines L sx g c n d) = page_height d
   \<and> margin_top (wrapLines L sx g c n d) = margin_top d
   \<and> margin_bottom (wrapLines L sx g c n d) = margin_bottom d
   \<and> margin_left (wrapLines L sx g c n d) = margin_left d
   \<and> margin_right (wrapLines L sx g c n d) = margin_right d"
  by (induction L sx g c n d rule: wrapLines.induct)
     (simp_all add: Let_def continueOnNewPage_def addPage_def)

lemma textFlow_geometry:
  "page_width (textFlow L s opts d) = page_width d
   \<and> page_height (textFlow L s opts d) = page_height d
   \<and> margin_top (textFlow L s opts d) = margin_top d
   \<and> margin_bottom (textFlow L s opts d) = margin_bottom d
   \<and> margin_left (textFlow L s opts d) = margin_left d
   \<and> margin_right (textFlow L s opts d) = margin_right d"
  by (simp add: textFlow_def Let_def wrapLines_geometry textStart_def continueOnNewPage_def
      addPage_def)

lemma contentWidth_textFlow: "contentWidth (textFlow L s opts d) = contentWidth d"
  by (simp add: contentWidth_def textFlow_geometry)









section \<open>The dispatcher\<close>

text \<open>
  C6.  An element whose type string is none of the kinds the dispatcher has a case for
  is skipped: the dispatcher returns without raising, and the document (the cursor, the
  pages, the drawing calls) is the one it was given.  So a list of elements renders the
  same with such an element as without it, at the top level of a specification
  (\<open>renderAll\<close>, \<open>render\<close>) and among the children of a column (\<open>renderChildren\<close>).
\<close>

theorem unknown_kind_noop:
  assumes "t \<notin> set registeredKinds"
  shows "renderElement L E (Element t a cols) d = Inr d
    \<and> renderAll L E (xs @ Element t a cols # ys) d = renderAll L E (xs @ ys) d
    \<and> renderChildren L E w (xs @ Element t a cols # ys) d = renderChildren L E w (xs @ ys) d
    \<and> render L E (sp\<lparr> sp_elements := Some (xs @ Element t a cols # ys) \<rparr>) d
        = render L E (sp\<lparr> sp_elements := Some (xs @ ys) \<rparr>) d"
proof -
  have u: "renderElement L E (Element t a' cols) d' = Inr d'" for d' a'
    using assms by (rule renderElement_unknown)
  have all: "renderAll L E (xs @ Element t a cols # ys) d = renderAll L E (xs @ ys) d"
    by (simp add: renderAll_append u split: sum.splits)
  have ch: "renderChildren L E w (xs @ Element t a cols # ys) d = renderChildren L E w (xs @ ys) d"
    by (simp add: renderChildren_append u split: sum.splits)
  have "render L E (sp\<lparr> sp_elements := Some (xs @ Element t a cols # ys) \<rparr>) d
        = render L E (sp\<lparr> sp_elements := Some (xs @ ys) \<rparr>) d"
    by (simp add: render_def specElements_def all split: sum.splits)
  with u all ch show ?thesis by blast
qed

theorem unknown_kind_noop_witness:
  "''unknownWidget'' \<notin> set registeredKinds
   \<and> renderElement demoLib demoEngine (Element ''unknownWidget'' no_attrs []) demoDoc = Inr demoDoc
   \<and> renderAll demoLib demoEngine ([] @ Element ''unknownWidget'' no_attrs [] # [demoText]) demoDoc
       = renderAll demoLib demoEngine ([] @ [demoText]) demoDoc"
proof -
  have h: "''unknownWidget'' \<notin> set registeredKinds"
    by (simp add: registeredKinds_def)
  show ?thesis
    using h unknown_kind_noop [OF h, where L = demoLib and E = demoEngine and a = no_attrs
        and cols = "[]" and d = demoDoc and xs = "[]" and ys = "[demoText]"]
    by blast
qed

section \<open>Tables\<close>

text \<open>
  The body rows of a table are drawn one turn of the loop after the other:
  \<open>tableRowState L E a d i\<close> is the state before body row \<open>i\<close>, row \<open>i\<close> takes it to
  \<open>tableRowState L E a d (Suc i)\<close> (lemma \<open>tableRowState_Suc\<close>), the state before
  row 0 is the one the header left (lemma \<open>tableRowState_0\<close>), and the state after the
  last row is the one \<^verbatim>\<open>_renderTable\<close> draws its bottom border from (lemma
  \<open>renderTable_last_state\<close>).
\<close>

text \<open>
  C2, as the code has it.  Before it paints body row \<open>i\<close>, the table renderer compares
  the bottom edge of the row (the local \<open>y\<close> plus the row height) with the bottom of the
  content area (page height minus bottom margin).  If the row would end below it, a
  page is added, it becomes the current page, and \<open>y\<close> is the top margin; otherwise
  nothing changes.  Nothing is drawn by the check.  The row is one row height high, and
  after the check the row either fits above the bottom of the content area or starts at
  the top margin of the page.  The row height is fixed and the text of a cell is not
  measured: the library may continue the text of a cell on a new page.  The drawing
  calls of the row are all made on the page the check left whenever no page is started
  while the cells are written.
\<close>

theorem table_row_page_check:
  fixes L E a d i
  defines "T \<equiv> tableCtx E a d"
    and "s \<equiv> tableRowState L E a d i"
    and "s' \<equiv> tableRowState L E a d (Suc i)"
  defines "c \<equiv> rowPageCheck T s"
  assumes "i < length (tableRows a)"
  shows "s' = renderRow L T i (tableRows a ! i) s
    \<and> (if snd s + t_rowHeight T > page_height (fst s) - margin_bottom (fst s)
        then c = (addPage (fst s), margin_top (fst s)) \<and> cur_page (fst c) = page_count (fst s)
        else c = s)
    \<and> prims (fst c) = prims (fst s)
    \<and> page_count (fst c) \<le> page_count (fst s')
    \<and> (page_count (fst s') = page_count (fst c)
         \<longrightarrow> (\<forall>q\<in>set (emitted (fst s) (fst s')). fst q = cur_page (fst c)))
    \<and> snd s' = snd c + t_rowHeight T
    \<and> (snd c + t_rowHeight T \<le> page_height (fst c) - margin_bottom (fst c)
        \<or> snd c = margin_top (fst c))"
proof -
  have step: "s' = renderRow L T i (tableRows a ! i) s"
    unfolding s'_def s_def T_def using assms(5) by (rule tableRowState_Suc)
  from renderRow_prims [where L = L and T = T and ri = i and r = "tableRows a ! i" and s = s]
  obtain ps where ps:
    "prims (fst (renderRow L T i (tableRows a ! i) s)) =
       prims (fst s) @ rowBackgroundPrims T i (cur_page (fst c)) (snd c) @ ps"
    "page_count (fst c) \<le> page_count (fst (renderRow L T i (tableRows a ! i) s))"
    "page_count (fst (renderRow L T i (tableRows a ! i) s)) = page_count (fst c)
       \<longrightarrow> (\<forall>q\<in>set ps. fst q = cur_page (fst c))"
    unfolding c_def by blast
  have e: "emitted (fst s) (fst s') = rowBackgroundPrims T i (cur_page (fst c)) (snd c) @ ps"
    using ps(1) by (simp add: step emitted_append)
  have mono: "page_count (fst c) \<le> page_count (fst s')"
    using ps(2) by (simp add: step)
  have ps3: "page_count (fst s') = page_count (fst c)
         \<longrightarrow> (\<forall>q\<in>set ps. fst q = cur_page (fst c))"
    using ps(3) unfolding step .
  have pg: "page_count (fst s') = page_count (fst c)
         \<longrightarrow> (\<forall>q\<in>set (emitted (fst s) (fst s')). fst q = cur_page (fst c))"
    unfolding e using ps3 by (auto simp add: rowBackgroundPrims_def)
  have y: "snd s' = snd c + t_rowHeight T"
    by (simp add: step renderRow_def Let_def c_def)
  show ?thesis
    using step mono pg y rowPageCheck_cases [of s T] rowPageCheck_fits [of T s]
      rowPageCheck_prims [of T s]
    unfolding c_def by simp
qed

theorem table_row_page_check_witness:
  "2 < length (tableRows demoRows)
   \<and> snd (tableRowState demoLib demoEngine demoRows demoLow 2) = 748
   \<and> rowPageCheck (tableCtx demoEngine demoRows demoLow)
        (tableRowState demoLib demoEngine demoRows demoLow 2)
      = (addPage (fst (tableRowState demoLib demoEngine demoRows demoLow 2)), 50)
   \<and> page_count (fst (tableRowState demoLib demoEngine demoRows demoLow (Suc 2)))
      = page_count (fst (rowPageCheck (tableCtx demoEngine demoRows demoLow)
                           (tableRowState demoLib demoEngine demoRows demoLow 2)))
   \<and> map fst (emitted (fst (tableRowState demoLib demoEngine demoRows demoLow 2))
                (fst (tableRowState demoLib demoEngine demoRows demoLow (Suc 2)))) = [1]"
proof -
  let ?T = "tableCtx demoEngine demoRows demoLow"
  let ?s = "tableRowState demoLib demoEngine demoRows demoLow 2"
  have h: "2 < length (tableRows demoRows)"
    by code_simp
  have y: "snd ?s = 748"
    by code_simp
  have over: "snd ?s + t_rowHeight ?T > page_height (fst ?s) - margin_bottom (fst ?s)"
    by code_simp
  have pc: "page_count (fst ?s) = 1" "margin_top (fst ?s) = 50"
    by code_simp+
  note t = table_row_page_check [OF h, where L = demoLib and E = demoEngine and d = demoLow]
  from t have "if snd ?s + t_rowHeight ?T > page_height (fst ?s) - margin_bottom (fst ?s)
      then rowPageCheck ?T ?s = (addPage (fst ?s), margin_top (fst ?s))
           \<and> cur_page (fst (rowPageCheck ?T ?s)) = page_count (fst ?s)
      else rowPageCheck ?T ?s = tableRowState demoLib demoEngine demoRows demoLow 2"
    by blast
  from if_holds [OF this over]
  have c: "rowPageCheck ?T ?s = (addPage (fst ?s), margin_top (fst ?s))"
    and cp: "cur_page (fst (rowPageCheck ?T ?s)) = page_count (fst ?s)"
    by blast+
  note c' = c [unfolded pc(2)]
  have n: "page_count (fst (tableRowState demoLib demoEngine demoRows demoLow (Suc 2)))
      = page_count (fst (rowPageCheck ?T ?s))"
    by code_simp
  have m: "map fst (emitted (fst ?s)
                (fst (tableRowState demoLib demoEngine demoRows demoLow (Suc 2)))) = [1]"
    by code_simp
  show ?thesis
    by (rule conjI [OF h conjI [OF y conjI [OF c' conjI [OF n m]]]])
qed

text \<open>
  A table of one row whose first cell holds a text that the library breaks into three
  lines, drawn 30 points above the bottom of the content area (row height 24, lines of
  10 points): the row passes the check, so no page is started before it; the second
  line of the first cell ends 5 points above the bottom, the third line is continued on
  a new page, and the two other cells of the row are written there.
\<close>

theorem table_row_spans_pages_counterexample:
  "0 < length (tableRows demoWrapTable)
   \<and> rowPageCheck (tableCtx demoEngine demoWrapTable demoLower)
        (tableRowState demoLib demoEngine demoWrapTable demoLower 0)
      = tableRowState demoLib demoEngine demoWrapTable demoLower 0
   \<and> map fst (emitted (fst (tableRowState demoLib demoEngine demoWrapTable demoLower 0))
                (fst (tableRowState demoLib demoEngine demoWrapTable demoLower (Suc 0))))
      = [0, 1, 1]"
  by code_simp

text \<open>
  C3.  Body row \<open>i\<close> (counted from 0 over the whole table) gets the alternate background
  exactly when \<open>i\<close> is odd: the fill calls of the row are that one rectangle, on the
  page and at the height the page check left, when \<open>i\<close> is odd, and none when \<open>i\<close> is
  even.  The index is the index in the row list, whatever pages were started before.
\<close>

theorem table_alternate_row_parity:
  assumes "i < length (tableRows a)"
  shows "filter (\<lambda>q. isFillRect (snd q))
           (emitted (fst (tableRowState L E a d i)) (fst (tableRowState L E a d (Suc i))))
         = (if odd i
            then [(cur_page (fst (rowPageCheck (tableCtx E a d) (tableRowState L E a d i))),
                   PFillRect (t_startX (tableCtx E a d))
                     (snd (rowPageCheck (tableCtx E a d) (tableRowState L E a d i)))
                     (sum_list (t_colWidths (tableCtx E a d)))
                     (t_rowHeight (tableCtx E a d)) (t_rowAltBg (tableCtx E a d)))]
            else [])"
proof -
  let ?T = "tableCtx E a d"
  let ?s = "tableRowState L E a d i"
  let ?c = "rowPageCheck ?T ?s"
  from renderRow_prims [where L = L and T = ?T and ri = i and r = "tableRows a ! i" and s = ?s]
  obtain ps where ps:
    "prims (fst (renderRow L ?T i (tableRows a ! i) ?s)) =
       prims (fst ?s) @ rowBackgroundPrims ?T i (cur_page (fst ?c)) (snd ?c) @ ps"
    "\<forall>q\<in>set ps. isText (snd q)"
    by blast
  have e: "emitted (fst ?s) (fst (tableRowState L E a d (Suc i))) =
           rowBackgroundPrims ?T i (cur_page (fst ?c)) (snd ?c) @ ps"
    using ps(1) by (simp add: tableRowState_Suc [OF assms] emitted_append)
  have "filter (\<lambda>q. isFillRect (snd q)) ps = []"
    using ps(2) by (rule filter_fill_text)
  then show ?thesis
    by (simp add: e rowBackgroundPrims_def odd_iff_mod_2_eq_one)
qed

theorem table_alternate_row_parity_witness:
  "3 < length (tableRows demoRows)
   \<and> filter (\<lambda>q. isFillRect (snd q))
        (emitted (fst (tableRowState demoLib demoEngine demoRows demoLow 3))
                 (fst (tableRowState demoLib demoEngine demoRows demoLow (Suc 3))))
       = [(1, PFillRect 50 74 200 24 ''#F2F2F2'')]"
proof -
  have h: "3 < length (tableRows demoRows)"
    by code_simp
  have v: "(if odd (3::nat)
            then [(cur_page (fst (rowPageCheck (tableCtx demoEngine demoRows demoLow)
                     (tableRowState demoLib demoEngine demoRows demoLow 3))),
                   PFillRect (t_startX (tableCtx demoEngine demoRows demoLow))
                     (snd (rowPageCheck (tableCtx demoEngine demoRows demoLow)
                        (tableRowState demoLib demoEngine demoRows demoLow 3)))
                     (sum_list (t_colWidths (tableCtx demoEngine demoRows demoLow)))
                     (t_rowHeight (tableCtx demoEngine demoRows demoLow))
                     (t_rowAltBg (tableCtx demoEngine demoRows demoLow)))]
            else []) = [(1, PFillRect 50 74 200 24 ''#F2F2F2'')]"
    by code_simp
  show ?thesis
    using h v table_alternate_row_parity [OF h, where L = demoLib and E = demoEngine
        and d = demoLow]
    by simp
qed



text \<open>
  C7, as the code has it.  A body cell that is an object with a non-empty \<^verbatim>\<open>link\<close> is
  drawn by one text call, at the padded position of the cell, with the column width
  minus the padding on both sides as its width, and the link is the \<^verbatim>\<open>link\<close> option of
  that same text call, underlined.  The table renderer makes no call that registers a
  clickable region of its own: where the link is clickable is left to the text call.
\<close>

theorem table_link_cell_text_option:
  assumes "truthy_str l"
  shows "emitted d (renderCell L T y x w (CObj t l col) d) =
        [(textPage L
            (no_opts\<lparr> o_width := Some (w - t_cellPadding T * 2), o_link := l,
                      o_underline := True \<rparr>)
            ((fillColor (str_or col ''#1a0dab'')
                (setFont (t_bodyFont T) (t_fontSize T) ''#000000'' d))
               \<lparr> doc_x := x + t_cellPadding T, doc_y := y + t_cellPadding T \<rparr>),
          PText (str_or t []) (x + t_cellPadding T) (y + t_cellPadding T)
            (no_opts\<lparr> o_width := Some (w - t_cellPadding T * 2), o_link := l,
                      o_underline := True \<rparr>)
            (t_bodyFont T) (t_fontSize T) (str_or col ''#1a0dab''))]
    \<and> filter (\<lambda>q. isLink (snd q)) (emittedBy d0 (renderTable L E a d0)) = []"
proof -
  have p: "prims (renderCell L T y x w (CObj t l col) d) = prims d @
        [(textPage L
            (no_opts\<lparr> o_width := Some (w - t_cellPadding T * 2), o_link := l,
                      o_underline := True \<rparr>)
            ((fillColor (str_or col ''#1a0dab'')
                (setFont (t_bodyFont T) (t_fontSize T) ''#000000'' d))
               \<lparr> doc_x := x + t_cellPadding T, doc_y := y + t_cellPadding T \<rparr>),
          PText (str_or t []) (x + t_cellPadding T) (y + t_cellPadding T)
            (no_opts\<lparr> o_width := Some (w - t_cellPadding T * 2), o_link := l,
                      o_underline := True \<rparr>)
            (t_bodyFont T) (t_fontSize T) (str_or col ''#1a0dab''))]"
    using assms by (simp add: renderCell_def Let_def textAt_prims) (simp add: lib_ops)
  show ?thesis
    using emitted_append [OF p] renderTable_nolink [of d0 L E a] by simp
qed

theorem table_link_cell_text_option_witness:
  "truthy_str (Some ''https://google.com'')
   \<and> emitted demoDoc (renderCell demoLib demoCtx 50 50 200
         (CObj (Some ''Visit'') (Some ''https://google.com'') None) demoDoc) =
       [(0, PText ''Visit'' 55 55
              (no_opts\<lparr> o_width := Some 190, o_link := Some ''https://google.com'',
                        o_underline := True \<rparr>)
              ''Helvetica'' 10 ''#1a0dab'')]"
proof -
  have h: "truthy_str (Some ''https://google.com'')"
    by (simp add: truthy_str_def)
  have v: "[(textPage demoLib
            (no_opts\<lparr> o_width := Some (200 - t_cellPadding demoCtx * 2),
                      o_link := Some ''https://google.com'', o_underline := True \<rparr>)
            ((fillColor (str_or None ''#1a0dab'')
                (setFont (t_bodyFont demoCtx) (t_fontSize demoCtx) ''#000000'' demoDoc))
               \<lparr> doc_x := 50 + t_cellPadding demoCtx, doc_y := 50 + t_cellPadding demoCtx \<rparr>),
          PText (str_or (Some ''Visit'') []) (50 + t_cellPadding demoCtx) (50 + t_cellPadding demoCtx)
            (no_opts\<lparr> o_width := Some (200 - t_cellPadding demoCtx * 2),
                      o_link := Some ''https://google.com'', o_underline := True \<rparr>)
            (t_bodyFont demoCtx) (t_fontSize demoCtx) (str_or None ''#1a0dab''))]
       = [(0, PText ''Visit'' 55 55
              (no_opts\<lparr> o_width := Some 190, o_link := Some ''https://google.com'',
                        o_underline := True \<rparr>)
              ''Helvetica'' 10 ''#1a0dab'')]"
    by code_simp
  from table_link_cell_text_option [OF h, where d = demoDoc and L = demoLib and T = demoCtx
      and y = 50 and x = 50 and w = 200 and t = "Some ''Visit''" and col = None
      and ?d0.0 = demoDoc and E = demoEngine and a = demoLinkTable]
  have c1: "emitted demoDoc (renderCell demoLib demoCtx 50 50 200
         (CObj (Some ''Visit'') (Some ''https://google.com'') None) demoDoc) =
       [(textPage demoLib
            (no_opts\<lparr> o_width := Some (200 - t_cellPadding demoCtx * 2),
                      o_link := Some ''https://google.com'', o_underline := True \<rparr>)
            ((fillColor (str_or None ''#1a0dab'')
                (setFont (t_bodyFont demoCtx) (t_fontSize demoCtx) ''#000000'' demoDoc))
               \<lparr> doc_x := 50 + t_cellPadding demoCtx, doc_y := 50 + t_cellPadding demoCtx \<rparr>),
          PText (str_or (Some ''Visit'') []) (50 + t_cellPadding demoCtx) (50 + t_cellPadding demoCtx)
            (no_opts\<lparr> o_width := Some (200 - t_cellPadding demoCtx * 2),
                      o_link := Some ''https://google.com'', o_underline := True \<rparr>)
            (t_bodyFont demoCtx) (t_fontSize demoCtx) (str_or None ''#1a0dab''))]"
    by blast
  have c1': "emitted demoDoc (renderCell demoLib demoCtx 50 50 200
         (CObj (Some ''Visit'') (Some ''https://google.com'') None) demoDoc) =
       [(0, PText ''Visit'' 55 55
              (no_opts\<lparr> o_width := Some 190, o_link := Some ''https://google.com'',
                        o_underline := True \<rparr>)
              ''Helvetica'' 10 ''#1a0dab'')]"
    unfolding c1 by (rule v)
  show ?thesis
    by (rule conjI [OF h c1'])
qed

text \<open>
  A table of one row with one linked cell in a column 200 points wide, drawn at the top
  of the test page (row height 24): the drawing calls are the text of the cell, carrying
  the link, and the bottom border.  No clickable region over the padded box of the cell
  (50, 50, 200, 24) is registered.
\<close>

theorem table_link_cell_region_counterexample:
  "map snd (emittedBy demoDoc (renderTable demoLib demoEngine demoLinkTable demoDoc)) =
     [PText ''Visit'' 55 55
        (no_opts\<lparr> o_width := Some 190, o_link := Some ''https://google.com'',
                  o_underline := True \<rparr>)
        ''Helvetica'' 10 ''#1a0dab'',
      PLine 50 74 250 74 ''#CCCCCC'' (1 / 2)]
   \<and> (0, PLink 50 50 200 24 ''https://google.com'')
        \<notin> set (emittedBy demoDoc (renderTable demoLib demoEngine demoLinkTable demoDoc))"
  by code_simp




text \<open>
  A table with three header labels and one explicit column width: the second label is
  written at a position that is a number, the third is not, and the library raises.
\<close>

lemma table_headers_beyond_widths_raise:
  "renderElement demoLib demoEngine (Element ''table'' demoWideHeader []) demoDoc
     = Inl UnsupportedNumber"
  by code_simp

section \<open>Links\<close>

text \<open>
  C1, as the code has it.  For a stealth link with a non-empty URL the renderer makes two
  calls.  The first writes the display text (\<^verbatim>\<open>el.value\<close>, or the empty string) with
  options that have no \<^verbatim>\<open>link\<close>.  The second registers a clickable region bound to the
  URL, from the cursor as it was before the text, as wide as \<^verbatim>\<open>el.width\<close> (or the content
  area) and as high as the cursor moved, on the page that is current after the text.
  The visible characters are the display text and nothing else, so the URL is among
  them only when the display text itself contains it; the annotation layer holds the
  URL.
\<close>

theorem stealth_link_decoupled:
  fixes L E a d
  defines "d1 \<equiv> setFont (str_or (el_font a) (defaultFont E))
                  (num_or (el_fontSize a) (defaultFontSize E)) (str_or (el_color a) ''#000000'') d"
  defines "d2 \<equiv> textFlow L (str_or (el_value a) []) (stealthOpts a) d1"
  assumes "truthy_str (el_url a)"
  shows "renderElement L E (Element ''stealthLink'' a cols) d = Inr (renderStealthLink L E a d)
    \<and> o_link (stealthOpts a) = None
    \<and> emitted d (renderStealthLink L E a d) =
        [(textPage L (stealthOpts a) d1,
          PText (str_or (el_value a) []) (doc_x d) (doc_y d) (stealthOpts a)
            (str_or (el_font a) (defaultFont E)) (num_or (el_fontSize a) (defaultFontSize E))
            (str_or (el_color a) ''#000000'')),
         (cur_page d2,
          PLink (doc_x d) (doc_y d) (num_or (el_width a) (contentWidth d))
            (doc_y d2 - doc_y d) (text_arg (el_url a)))]
    \<and> visibleStream (emitted d (renderStealthLink L E a d)) = [str_or (el_value a) []]
    \<and> annotationLayer (emitted d (renderStealthLink L E a d)) = [text_arg (el_url a)]"
proof -
  have c: "contentWidth d2 = contentWidth d"
    unfolding d2_def d1_def by (simp add: contentWidth_textFlow) (simp add: contentWidth_def setFont_def)
  have x: "doc_x d1 = doc_x d" "doc_y d1 = doc_y d"
    "cur_font d1 = str_or (el_font a) (defaultFont E)"
    "cur_fontSize d1 = num_or (el_fontSize a) (defaultFontSize E)"
    "cur_fillColor d1 = str_or (el_color a) ''#000000''"
    "prims d1 = prims d"
    unfolding d1_def by (simp_all add: setFont_def)
  have r: "renderStealthLink L E a d =
      moveDownIf L (el_moveDown a)
        (link (doc_x d) (doc_y d) (num_or (el_width a) (contentWidth d)) (doc_y d2 - doc_y d)
           (text_arg (el_url a)) d2)"
    using assms(3) c x(1,2)
    by (simp add: renderStealthLink_def Let_def d2_def [symmetric] d1_def [symmetric])
  have p: "prims (renderStealthLink L E a d) = prims d @
        [(textPage L (stealthOpts a) d1,
          PText (str_or (el_value a) []) (doc_x d) (doc_y d) (stealthOpts a)
            (str_or (el_font a) (defaultFont E)) (num_or (el_fontSize a) (defaultFontSize E))
            (str_or (el_color a) ''#000000'')),
         (cur_page d2,
          PLink (doc_x d) (doc_y d) (num_or (el_width a) (contentWidth d))
            (doc_y d2 - doc_y d) (text_arg (el_url a)))]"
    unfolding r by (simp add: link_def emit_def) (simp add: d2_def textFlow_prims x)
  have n: "o_link (stealthOpts a) = None"
    by (simp add: stealthOpts_def no_opts_def)
  show ?thesis
    by (simp add: emitted_append [OF p] visibleStream_def annotationLayer_def n
        renderElement_stealthLink)
qed

theorem stealth_link_decoupled_witness:
  "truthy_str (el_url demoStealth)
   \<and> visibleStream (emitted demoDoc (renderStealthLink demoLib demoEngine demoStealth demoDoc))
       = [''View Document'']
   \<and> annotationLayer (emitted demoDoc (renderStealthLink demoLib demoEngine demoStealth demoDoc))
       = [''https://example.com/secret'']"
proof -
  have h: "truthy_str (el_url demoStealth)"
    by (simp add: demoStealth_def truthy_str_def)
  have e: "str_or (el_value demoStealth) [] = ''View Document''"
    "text_arg (el_url demoStealth) = ''https://example.com/secret''"
    by (simp_all add: demoStealth_def js_defs)
  from stealth_link_decoupled [OF h, where L = demoLib and E = demoEngine and d = demoDoc
      and cols = "[]"]
  have "visibleStream (emitted demoDoc (renderStealthLink demoLib demoEngine demoStealth demoDoc))
          = [str_or (el_value demoStealth) []]"
    and "annotationLayer (emitted demoDoc (renderStealthLink demoLib demoEngine demoStealth demoDoc))
          = [text_arg (el_url demoStealth)]"
    by blast+
  with h e show ?thesis by simp
qed

text \<open>
  A stealth link whose display text is its URL: the text call writes the URL.
\<close>

theorem stealth_link_url_visible_counterexample:
  "el_url demoExposed = Some ''https://example.com/secret''
   \<and> map snd (emitted demoDoc (renderStealthLink demoLib demoEngine demoExposed demoDoc)) =
       [PText ''https://example.com/secret'' 50 50 no_opts ''Helvetica'' 12 ''#000000'',
        PLink 50 50 500 12 ''https://example.com/secret'']
   \<and> visibleStream (emitted demoDoc (renderStealthLink demoLib demoEngine demoExposed demoDoc))
       = [''https://example.com/secret'']"
  by code_simp

text \<open>
  C9.  A link element without stealth mode writes one text call whose string is
  \<^verbatim>\<open>el.value\<close> when that is present and non-empty, and \<^verbatim>\<open>el.url\<close> otherwise; the URL is
  also the \<^verbatim>\<open>link\<close> option of the call.  With no display value the URL itself is the
  visible text.
\<close>

theorem plain_link_visible_text:
  assumes "\<not> truthy_bool (el_stealth a)"
  shows "renderElement L E (Element ''link'' a cols) d = Inr (renderLink L E a d)
    \<and> emitted d (renderLink L E a d) =
        [(textPage L ((textOptions a)\<lparr> o_link := el_url a, o_underline := True \<rparr>)
            (setFont (str_or (el_font a) (defaultFont E))
               (num_or (el_fontSize a) (defaultFontSize E)) (str_or (el_color a) ''#1a0dab'') d),
          PText (text_arg (str_or_opt (el_value a) (el_url a))) (doc_x d) (doc_y d)
            ((textOptions a)\<lparr> o_link := el_url a, o_underline := True \<rparr>)
            (str_or (el_font a) (defaultFont E)) (num_or (el_fontSize a) (defaultFontSize E))
            (str_or (el_color a) ''#1a0dab''))]
    \<and> visibleStream (emitted d (renderLink L E a d)) =
        [if truthy_str (el_value a) then text_arg (el_value a) else text_arg (el_url a)]"
proof -
  have p: "prims (renderLink L E a d) = prims d @
        [(textPage L ((textOptions a)\<lparr> o_link := el_url a, o_underline := True \<rparr>)
            (setFont (str_or (el_font a) (defaultFont E))
               (num_or (el_fontSize a) (defaultFontSize E)) (str_or (el_color a) ''#1a0dab'') d),
          PText (text_arg (str_or_opt (el_value a) (el_url a))) (doc_x d) (doc_y d)
            ((textOptions a)\<lparr> o_link := el_url a, o_underline := True \<rparr>)
            (str_or (el_font a) (defaultFont E)) (num_or (el_fontSize a) (defaultFontSize E))
            (str_or (el_color a) ''#1a0dab''))]"
    using assms by (simp add: renderLink_def Let_def textFlow_prims) (simp add: setFont_def)
  show ?thesis
    by (simp add: emitted_append [OF p] visibleStream_def str_or_opt_def renderElement_link)
qed

theorem plain_link_visible_text_witness:
  "\<not> truthy_bool (el_stealth demoLink)
   \<and> visibleStream (emitted demoDoc (renderLink demoLib demoEngine demoLink demoDoc))
       = [''https://example.com/visible'']"
proof -
  have h: "\<not> truthy_bool (el_stealth demoLink)"
    by (simp add: demoLink_def no_attrs_def truthy_bool_def)
  have v: "(if truthy_str (el_value demoLink) then text_arg (el_value demoLink)
            else text_arg (el_url demoLink)) = ''https://example.com/visible''"
    by (simp add: demoLink_def no_attrs_def js_defs)
  from plain_link_visible_text [OF h, where L = demoLib and E = demoEngine and d = demoDoc
      and cols = "[]"]
  have "visibleStream (emitted demoDoc (renderLink demoLib demoEngine demoLink demoDoc))
       = [if truthy_str (el_value demoLink) then text_arg (el_value demoLink)
            else text_arg (el_url demoLink)]"
    by blast
  with h v show ?thesis by simp
qed

section \<open>The page-numbering pass\<close>

text \<open>
  The footer of a page is written 15 points below the bottom of the content area.
  Whenever the content area has a positive width the text is wrapped, so the library
  continues it on a new page before it writes anything: the footer meant for page \<open>i\<close>
  lands on a page appended after the last one.
\<close>

lemma stampPage_new_page:
  assumes "0 < contentWidth d"
  shows "prims (stampPage L E opts n i d) = prims d @ [(page_count d, footerPrim E opts d n i)]"
    and "page_count d < page_count (stampPage L E opts n i d)"
proof -
  let ?d2 = "setFont (defaultFont E) (num_or (pn_fontSize opts) 10)
               (str_or (pn_color opts) ''#888888'') (switchToPage i d)"
  let ?o = "no_opts\<lparr> o_align := Some (str_or (pn_align opts) ''center''),
                     o_width := Some (page_width ?d2 - margin_left ?d2 - margin_right ?d2) \<rparr>"
  let ?d3 = "?d2\<lparr> doc_x := margin_left ?d2, doc_y := page_height ?d2 - margin_bottom ?d2 + 15 \<rparr>"
  have w: "wrapsText ?o ?d3"
    using assms by (simp add: wrapsText_def no_opts_def contentWidth_def lib_ops)
  have pg: "textPage L ?o ?d3 = page_count d"
    using w by (simp add: textPage_def textStart_def pageMaxY_def continueOnNewPage_def lib_ops)
  have s: "stampPage L E opts n i d =
      textAt L (footerText opts n i) (margin_left ?d2) (page_height ?d2 - margin_bottom ?d2 + 15)
        ?o ?d2"
    by (simp add: stampPage_def Let_def)
  show "prims (stampPage L E opts n i d) = prims d @ [(page_count d, footerPrim E opts d n i)]"
    unfolding s textAt_prims pg by (simp add: footerPrim_def lib_ops)
  have n: "page_count (textStart L ?o ?d3) = Suc (page_count d)"
    using w by (simp add: textStart_def pageMaxY_def continueOnNewPage_def lib_ops)
  let ?d4 = "(textStart L ?o ?d3)\<lparr> prims := prims (textStart L ?o ?d3) @
                  [(cur_page (textStart L ?o ?d3),
                    PText (footerText opts n i) (doc_x ?d3) (doc_y ?d3) ?o (cur_font ?d3)
                      (cur_fontSize ?d3) (cur_fillColor ?d3))] \<rparr>"
  have t: "stampPage L E opts n i d =
      wrapLines L (doc_x ?d3) (num_or (o_lineGap ?o) 0) (o_continued ?o)
        (l_text_lines L ?d3 (footerText opts n i) ?o) ?d4"
    unfolding s textAt_def textFlow_def using w by (simp add: Let_def)
  have "page_count ?d4 \<le> page_count (stampPage L E opts n i d)"
    unfolding t using wrapLines_pages by blast
  then show "page_count d < page_count (stampPage L E opts n i d)"
    using n by simp
qed

lemma stampPage_contentWidth: "contentWidth (stampPage L E opts n i d) = contentWidth d"
  by (simp add: stampPage_def Let_def textAt_def contentWidth_textFlow)
     (simp add: contentWidth_def lib_ops)

lemma fold_stampPage_new_pages:
  "0 < contentWidth d \<Longrightarrow>
   \<exists>ps. prims (fold (stampPage L E opts n) js d) = prims d @ ps
      \<and> (\<forall>q\<in>set ps. page_count d \<le> fst q)
      \<and> visibleStream ps = map (footerText opts n) js
      \<and> page_count d + length js \<le> page_count (fold (stampPage L E opts n) js d)"
proof (induction js arbitrary: d)
  case Nil
  then show ?case by (simp add: visibleStream_def)
next
  case (Cons j js)
  let ?d1 = "stampPage L E opts n j d"
  have w: "0 < contentWidth ?d1"
    using Cons.prems by (simp add: stampPage_contentWidth)
  note p = stampPage_new_page [OF Cons.prems, where L = L and E = E and opts = opts and n = n
      and i = j]
  from Cons.IH [OF w] obtain ps where ps:
    "prims (fold (stampPage L E opts n) js ?d1) = prims ?d1 @ ps"
    "\<forall>q\<in>set ps. page_count ?d1 \<le> fst q"
    "visibleStream ps = map (footerText opts n) js"
    "page_count ?d1 + length js \<le> page_count (fold (stampPage L E opts n) js ?d1)"
    by blast
  have a: "prims (fold (stampPage L E opts n) (j # js) d)
      = prims d @ ((page_count d, footerPrim E opts d n j) # ps)"
    using ps(1) p(1) by simp
  have b: "\<forall>q\<in>set ((page_count d, footerPrim E opts d n j) # ps). page_count d \<le> fst q"
    using ps(2) p(2) by auto
  have c: "visibleStream ((page_count d, footerPrim E opts d n j) # ps)
      = map (footerText opts n) (j # js)"
    using ps(3) by (simp add: visibleStream_def footerPrim_def)
  have e: "page_count d + length (j # js) \<le> page_count (fold (stampPage L E opts n) (j # js) d)"
    using ps(4) p(2) by simp
  from a b c e show ?case by blast
qed

text \<open>
  So whenever the content area has a positive width, the pass writes the right strings
  in the right order, none of them on a page that was there before the pass, and it
  adds a page or more for every page it numbers.
\<close>

lemma addPageNumbers_new_pages:
  assumes "0 < contentWidth d"
  shows "\<forall>q\<in>set (emitted d (addPageNumbers L E opts d)). page_count d \<le> fst q"
    and "visibleStream (emitted d (addPageNumbers L E opts d))
           = map (footerText opts (page_count d)) [0 ..< page_count d]"
    and "page_count d + page_count d \<le> page_count (addPageNumbers L E opts d)"
proof -
  from fold_stampPage_new_pages [OF assms, where L = L and E = E and opts = opts
      and n = "page_count d" and js = "[0 ..< page_count d]"]
  obtain ps where ps:
    "prims (addPageNumbers L E opts d) = prims d @ ps"
    "\<forall>q\<in>set ps. page_count d \<le> fst q"
    "visibleStream ps = map (footerText opts (page_count d)) [0 ..< page_count d]"
    "page_count d + length [0 ..< page_count d] \<le> page_count (addPageNumbers L E opts d)"
    unfolding addPageNumbers_def Let_def by blast
  have e: "emitted d (addPageNumbers L E opts d) = ps"
    using ps(1) by (rule emitted_append)
  show "\<forall>q\<in>set (emitted d (addPageNumbers L E opts d)). page_count d \<le> fst q"
    unfolding e by (rule ps(2))
  show "visibleStream (emitted d (addPageNumbers L E opts d))
           = map (footerText opts (page_count d)) [0 ..< page_count d]"
    unfolding e by (rule ps(3))
  show "page_count d + page_count d \<le> page_count (addPageNumbers L E opts d)"
    using ps(4) by simp
qed

text \<open>
  C5, at a specification of four pages (three page breaks) that asks for page numbers
  with the default options: the walk over the elements ends with four pages, and the
  page-numbering pass writes the four footer strings \<^verbatim>\<open>Page 1 of 4\<close> to \<^verbatim>\<open>Page 4 of 4\<close>,
  but each of them on a page of its own that the library starts for it.  The document
  ends with eight pages, the footers are on the pages 4 to 7, and none of the pages 0
  to 3 has a footer.
\<close>

theorem page_numbers_start_new_pages:
  "renderAll demoLib demoEngine (specElements demoPaged) demoDoc = Inr demoPaged1
   \<and> page_count demoPaged1 = 4
   \<and> render demoLib demoEngine demoPaged demoDoc
       = Inr (addPageNumbers demoLib demoEngine demoPn demoPaged1)
   \<and> page_count (addPageNumbers demoLib demoEngine demoPn demoPaged1) = 8
   \<and> map fst (emitted demoPaged1 (addPageNumbers demoLib demoEngine demoPn demoPaged1))
       = [4, 5, 6, 7]
   \<and> visibleStream (emitted demoPaged1 (addPageNumbers demoLib demoEngine demoPn demoPaged1))
       = [''Page 1 of 4'', ''Page 2 of 4'', ''Page 3 of 4'', ''Page 4 of 4'']"
proof -
  have h: "renderAll demoLib demoEngine (specElements demoPaged) demoDoc = Inr demoPaged1"
    by (simp add: demoPaged_def specElements_def renderElement.simps addPage_def demoPaged1_def
        demo_defs)
  have o: "sp_pageNumbers demoPaged = Some demoPn"
    by (simp add: demoPaged_def)
  have n: "page_count demoPaged1 = 4"
    by (simp add: demoPaged1_def)
  have r: "render demoLib demoEngine demoPaged demoDoc
       = Inr (addPageNumbers demoLib demoEngine demoPn demoPaged1)"
    by (simp add: render_def h o)
  have c: "page_count (addPageNumbers demoLib demoEngine demoPn demoPaged1) = 8"
    by code_simp
  have m: "map fst (emitted demoPaged1 (addPageNumbers demoLib demoEngine demoPn demoPaged1))
       = [4, 5, 6, 7]"
    by code_simp
  have v: "visibleStream (emitted demoPaged1 (addPageNumbers demoLib demoEngine demoPn demoPaged1))
       = [''Page 1 of 4'', ''Page 2 of 4'', ''Page 3 of 4'', ''Page 4 of 4'']"
    by code_simp
  show ?thesis
    by (rule conjI [OF h conjI [OF n conjI [OF r conjI [OF c conjI [OF m v]]]]])
qed

section \<open>Columns\<close>



end
